theory Spec2Isabelle
  imports Main
begin

section \<open>Go strings and the library functions the list parsers call\<close>

text \<open>
  A Go string is a sequence of bytes, so it is a \<open>string\<close> (a \<open>char list\<close>) here and
  \<open>length\<close> is Go's \<open>len\<close>. The functions of this section model the Go standard
  library (\<open>strings\<close>, \<open>strconv\<close>), which the program calls and does not define.
\<close>

definition isAsciiSpace :: "char \<Rightarrow> bool" where
  \<comment> \<open>the table \<open>asciiSpace\<close> of package \<open>strings\<close>: tab, LF, VT, FF, CR, space\<close>
  "isAsciiSpace c \<longleftrightarrow>
     c = CHR 0x09 \<or> c = CHR 0x0A \<or> c = CHR 0x0B \<or> c = CHR 0x0C \<or> c = CHR 0x0D \<or> c = CHR 0x20"

definition spaceRuneLen :: "string \<Rightarrow> nat" where
  \<comment> \<open>the number of bytes of the rune at the head of the string when that rune satisfies
      \<open>unicode.IsSpace\<close> (its UTF-8 encoding is written out), and 0 otherwise:
      U+0009..U+000D, U+0020, U+0085, U+00A0, U+1680, U+2000..U+200A, U+2028, U+2029,
      U+202F, U+205F, U+3000\<close>
  "spaceRuneLen s =
     (case s of
        [] \<Rightarrow> 0
      | c # r \<Rightarrow>
          if isAsciiSpace c then 1
          else if c = CHR 0xC2 \<and> (take 1 r = [CHR 0x85] \<or> take 1 r = [CHR 0xA0]) then 2
          else if c = CHR 0xE1 \<and> take 2 r = [CHR 0x9A, CHR 0x80] then 3
          else if c = CHR 0xE2 \<and> take 1 r = [CHR 0x80] \<and>
                  take 1 (drop 1 r) \<in> set [[CHR 0x80], [CHR 0x81], [CHR 0x82], [CHR 0x83],
                     [CHR 0x84], [CHR 0x85], [CHR 0x86], [CHR 0x87], [CHR 0x88], [CHR 0x89],
                     [CHR 0x8A], [CHR 0xA8], [CHR 0xA9], [CHR 0xAF]] then 3
          else if c = CHR 0xE2 \<and> take 2 r = [CHR 0x81, CHR 0x9F] then 3
          else if c = CHR 0xE3 \<and> take 2 r = [CHR 0x80, CHR 0x80] then 3
          else 0)"

fun TrimLeftSpace :: "string \<Rightarrow> string" where
  \<comment> \<open>\<open>strings.TrimLeftFunc(s, unicode.IsSpace)\<close>\<close>
  "TrimLeftSpace [] = []"
| "TrimLeftSpace (c # cs) =
     (if spaceRuneLen (c # cs) = 1 then TrimLeftSpace cs
      else if spaceRuneLen (c # cs) = 2 then TrimLeftSpace (drop 1 cs)
      else if spaceRuneLen (c # cs) = 3 then TrimLeftSpace (drop 2 cs)
      else c # cs)"

fun TrimRightSpaceRev :: "string \<Rightarrow> string" where
  \<comment> \<open>\<open>strings.TrimRightFunc(s, unicode.IsSpace)\<close> on the reversed string: the argument
      lists the bytes from the last one backwards. \<open>utf8.DecodeLastRune\<close> steps back to the
      nearest byte that starts a rune and accepts the rune only when it ends at the end,
      so a white-space rune is cut exactly when its encoding is a suffix.\<close>
  "TrimRightSpaceRev [] = []"
| "TrimRightSpaceRev (c # cs) =
     (if spaceRuneLen [c] = 1 then TrimRightSpaceRev cs
      else if spaceRuneLen (rev (take 2 (c # cs))) = 2 then TrimRightSpaceRev (drop 1 cs)
      else if spaceRuneLen (rev (take 3 (c # cs))) = 3 then TrimRightSpaceRev (drop 2 cs)
      else c # cs)"

definition TrimSpace :: "string \<Rightarrow> string" where
  \<comment> \<open>\<open>strings.TrimSpace\<close>: leading, then trailing white space is cut\<close>
  "TrimSpace s = rev (TrimRightSpaceRev (rev (TrimLeftSpace s)))"

fun splitOn :: "(char \<Rightarrow> bool) \<Rightarrow> string \<Rightarrow> string list" where
  \<comment> \<open>the pieces between separator bytes, empty pieces included\<close>
  "splitOn f [] = [[]]"
| "splitOn f (c # cs) =
     (if f c then [] # splitOn f cs
      else (case splitOn f cs of
              [] \<Rightarrow> [[c]]
            | w # ws \<Rightarrow> (c # w) # ws))"

definition FieldsFunc :: "string \<Rightarrow> (char \<Rightarrow> bool) \<Rightarrow> string list" where
  \<comment> \<open>\<open>strings.FieldsFunc\<close>: the maximal runs of non-separators. The predicate of the
      program tests a rune against two ASCII characters; in UTF-8 an ASCII byte is never
      part of a longer encoding, so the test is made on bytes.\<close>
  "FieldsFunc s f = filter (\<lambda>w. w \<noteq> []) (splitOn f s)"

definition SplitN_2 :: "string \<Rightarrow> char \<Rightarrow> string list" where
  \<comment> \<open>\<open>strings.SplitN(s, sep, 2)\<close> for a one-byte separator: the string itself when the
      separator does not occur, else the parts before and after its first occurrence\<close>
  "SplitN_2 s sep =
     (if sep \<in> set s
      then [takeWhile (\<lambda>c. c \<noteq> sep) s, drop 1 (dropWhile (\<lambda>c. c \<noteq> sep) s)]
      else [s])"

definition isDigit :: "char \<Rightarrow> bool" where
  "isDigit c \<longleftrightarrow> c \<in> set ''0123456789''"

definition digitsVal :: "string \<Rightarrow> int" where
  "digitsVal ds = foldl (\<lambda>n c. 10 * n + (of_char c - 48)) 0 ds"

definition Atoi :: "string \<Rightarrow> int option" where
  \<comment> \<open>\<open>strconv.Atoi\<close> with a 64-bit \<open>int\<close>: an optional sign, then one or more decimal
      digits, the value within \<open>[-2^63, 2^63 - 1]\<close>; \<open>None\<close> is a returned error\<close>
  "Atoi s =
     (let neg = (take 1 s = ''-'');
          ds = (if take 1 s = ''-'' \<or> take 1 s = ''+'' then drop 1 s else s)
      in if ds = [] \<or> \<not> list_all isDigit ds then None
         else let v = (if neg then - digitsVal ds else digitsVal ds)
              in if v < - (2 ^ 63) \<or> 2 ^ 63 - 1 < v then None else Some v)"

section \<open>The list parsers\<close>

record userSpec =
  ID :: "int option"
  Login :: string
  Name :: string

datatype parse_error =
    UserListEmpty
  | InvalidUserSpec string
  | UserIdEmpty string
  | UserNameEmpty string
  | ContestListEmpty
  | InvalidContestID string

definition splitList :: "string \<Rightarrow> string list" where
  "splitList raw =
     (let parts = FieldsFunc raw (\<lambda>r. r = CHR '';'' \<or> r = CHR '','')
      in filter (\<lambda>trimmed. trimmed \<noteq> []) (map TrimSpace parts))"

fun parseUsers_loop :: "string list \<Rightarrow> userSpec list \<Rightarrow> parse_error + userSpec list" where
  "parseUsers_loop [] users = Inr users"
| "parseUsers_loop (item # items) users =
     (let parts = SplitN_2 item (CHR '':'')
      in if length parts \<noteq> 2 then Inl (InvalidUserSpec item)
         else
           let idPart = TrimSpace (parts ! 0);
               namePart = TrimSpace (parts ! 1)
           in if idPart = [] then Inl (UserIdEmpty item)
              else if namePart = [] then Inl (UserNameEmpty item)
              else
                let user = \<lparr>ID = None, Login = idPart, Name = namePart\<rparr>;
                    user = (case Atoi idPart of
                              Some i \<Rightarrow> user\<lparr>ID := Some i\<rparr>
                            | None \<Rightarrow> user)
                in parseUsers_loop items (users @ [user]))"

definition parseUsers :: "string \<Rightarrow> parse_error + userSpec list" where
  "parseUsers raw =
     (let items = splitList raw
      in if length items = 0 then Inl UserListEmpty
         else parseUsers_loop items [])"

fun parseContestIDs_loop :: "string list \<Rightarrow> int list \<Rightarrow> parse_error + int list" where
  "parseContestIDs_loop [] ids = Inr ids"
| "parseContestIDs_loop (item # items) ids =
     (case Atoi item of
        None \<Rightarrow> Inl (InvalidContestID item)
      | Some i \<Rightarrow> parseContestIDs_loop items (ids @ [i]))"

definition parseContestIDs :: "string \<Rightarrow> parse_error + int list" where
  "parseContestIDs raw =
     (let items = splitList raw
      in if length items = 0 then Inl ContestListEmpty
         else parseContestIDs_loop items [])"

section \<open>The specification's reading of a user token\<close>

text \<open>
  The specification describes a user token as an identifier, a colon and a display name.
  The definitions of this section follow its words, to be compared with \<open>parseUsers\<close>:
  the identifier side is what stands before the first colon and the name side is what
  stands after it, both trimmed.
\<close>

definition spec_idSide :: "string \<Rightarrow> string" where
  "spec_idSide item = TrimSpace (takeWhile (\<lambda>c. c \<noteq> CHR '':'') item)"

definition spec_nameSide :: "string \<Rightarrow> string" where
  "spec_nameSide item = TrimSpace (drop 1 (dropWhile (\<lambda>c. c \<noteq> CHR '':'') item))"

definition spec_validToken :: "string \<Rightarrow> bool" where
  "spec_validToken item \<longleftrightarrow>
     CHR '':'' \<in> set item \<and> spec_idSide item \<noteq> [] \<and> spec_nameSide item \<noteq> []"

definition spec_tokenUser :: "string \<Rightarrow> userSpec" where
  "spec_tokenUser item =
     \<lparr>ID = Atoi (spec_idSide item), Login = spec_idSide item, Name = spec_nameSide item\<rparr>"

definition spec_tokenError :: "string \<Rightarrow> parse_error" where
  "spec_tokenError item =
     (if CHR '':'' \<in> set item
      then (if spec_idSide item = [] then UserIdEmpty item else UserNameEmpty item)
      else InvalidUserSpec item)"

section \<open>The JSON text the program decodes\<close>

text \<open>
  A model of the scanner of Go's \<open>encoding/json\<close>: the grammar of RFC 8259, with the
  nesting of arrays and objects limited to 10000 as the package limits it. \<open>readValue\<close>
  reads the first value of a text and returns it with the text that follows it, the way a
  \<open>json.Decoder\<close> consumes a stream. String values and object keys are unquoted: escapes
  are replaced and ill-formed UTF-8 is coerced to U+FFFD. A number keeps its literal.
  Like the package's scanner, \<open>scanFrom\<close> reads the text once, from left to right, and
  keeps the open arrays and objects on a stack; each step consumes input, which is its
  termination argument.
\<close>

datatype json =
    JNull
  | JBool bool
  | JNumber string
  | JString string
  | JArray "json list"
  | JObject "(string \<times> json) list"

datatype 'a scan = ScanErr | ScanOk 'a string

definition isJSONSpace :: "char \<Rightarrow> bool" where
  "isJSONSpace c \<longleftrightarrow> c = CHR 0x20 \<or> c = CHR 0x09 \<or> c = CHR 0x0D \<or> c = CHR 0x0A"

definition skipSpace :: "string \<Rightarrow> string" where
  "skipSpace s = dropWhile isJSONSpace s"

definition isHex :: "char \<Rightarrow> bool" where
  "isHex c \<longleftrightarrow> c \<in> set ''0123456789abcdefABCDEF''"

definition isEscapeChar :: "char \<Rightarrow> bool" where
  \<comment> \<open>the characters that may follow a backslash, \<open>u\<close> apart\<close>
  "isEscapeChar e \<longleftrightarrow>
     e \<in> set [CHR ''b'', CHR ''f'', CHR ''n'', CHR ''r'', CHR ''t'', CHR 0x5C, CHR ''/'', CHR 0x22]"

definition isHex4 :: "string \<Rightarrow> bool" where
  "isHex4 s \<longleftrightarrow> length (take 4 s) = 4 \<and> list_all isHex (take 4 s)"

fun scanString :: "string \<Rightarrow> (string \<times> string) option" where
  \<comment> \<open>a string literal after its opening quote: the text up to the closing quote, still
      with its escapes, and the text after the closing quote\<close>
  "scanString [] = None"
| "scanString (c # cs) =
     (if c = CHR 0x22 then Some ([], cs)
      else if c = CHR 0x5C then
        (if cs \<noteq> [] \<and> isEscapeChar (hd cs) then
           map_option (\<lambda>x. (c # take 1 cs @ fst x, snd x)) (scanString (drop 1 cs))
         else if take 1 cs = ''u'' \<and> isHex4 (drop 1 cs) then
           map_option (\<lambda>x. (c # take 5 cs @ fst x, snd x)) (scanString (drop 5 cs))
         else None)
      else if (of_char c :: nat) < 0x20 then None
      else map_option (\<lambda>x. (c # fst x, snd x)) (scanString cs))"

definition scanDigits :: "string \<Rightarrow> (string \<times> string) option" where
  \<comment> \<open>one or more digits\<close>
  "scanDigits s = (if takeWhile isDigit s = [] then None
                   else Some (takeWhile isDigit s, dropWhile isDigit s))"

definition scanInt :: "string \<Rightarrow> (string \<times> string) option" where
  \<comment> \<open>the integer part of a number: a single 0, or digits\<close>
  "scanInt s = (if take 1 s = ''0'' then Some (''0'', drop 1 s) else scanDigits s)"

definition scanFrac :: "string \<Rightarrow> (string \<times> string) option" where
  \<comment> \<open>the optional fraction: a point and digits\<close>
  "scanFrac s =
     (if take 1 s = ''.''
      then map_option (\<lambda>x. (CHR ''.'' # fst x, snd x)) (scanDigits (drop 1 s))
      else Some ([], s))"

definition scanExp :: "string \<Rightarrow> (string \<times> string) option" where
  \<comment> \<open>the optional exponent: e or E, an optional sign, and digits\<close>
  "scanExp s =
     (if take 1 s = ''e'' \<or> take 1 s = ''E'' then
        (if take 1 (drop 1 s) = ''+'' \<or> take 1 (drop 1 s) = ''-''
         then map_option (\<lambda>x. (take 2 s @ fst x, snd x)) (scanDigits (drop 2 s))
         else map_option (\<lambda>x. (take 1 s @ fst x, snd x)) (scanDigits (drop 1 s)))
      else Some ([], s))"

definition scanNumber :: "string \<Rightarrow> (string \<times> string) option" where
  \<comment> \<open>a number literal and the text after it\<close>
  "scanNumber s =
     (let sign = (if take 1 s = ''-'' then ''-'' else [])
      in case scanInt (drop (length sign) s) of
           None \<Rightarrow> None
         | Some ip \<Rightarrow>
             (case scanFrac (snd ip) of
                None \<Rightarrow> None
              | Some fp \<Rightarrow>
                  (case scanExp (snd fp) of
                     None \<Rightarrow> None
                   | Some ep \<Rightarrow> Some (sign @ fst ip @ fst fp @ fst ep, snd ep))))"

definition maxNestingDepth :: nat where
  "maxNestingDepth = 10000"

definition hexVal :: "char \<Rightarrow> nat" where
  "hexVal c =
     (if isDigit c then of_char c - 48
      else if c \<in> set ''abcdef'' then of_char c - 87
      else of_char c - 55)"

definition hex4 :: "string \<Rightarrow> nat" where
  "hex4 s = foldl (\<lambda>n c. 16 * n + hexVal c) 0 s"

definition getu4 :: "string \<Rightarrow> nat option" where
  \<comment> \<open>the code unit of an escape \<open>\uXXXX\<close> at the head of the string, if one stands there\<close>
  "getu4 s =
     (if take 2 s = [CHR 0x5C, CHR ''u''] \<and> length (take 4 (drop 2 s)) = 4 \<and>
         list_all isHex (take 4 (drop 2 s))
      then Some (hex4 (take 4 (drop 2 s)))
      else None)"

definition EncodeRune :: "nat \<Rightarrow> string" where
  \<comment> \<open>\<open>utf8.EncodeRune\<close> for a code point that is no surrogate and at most U+10FFFF\<close>
  "EncodeRune r =
     (if r < 0x80 then [char_of r]
      else if r < 0x800 then [char_of (0xC0 + r div 0x40), char_of (0x80 + r mod 0x40)]
      else if r < 0x10000 then
        [char_of (0xE0 + r div 0x1000), char_of (0x80 + (r div 0x40) mod 0x40),
         char_of (0x80 + r mod 0x40)]
      else
        [char_of (0xF0 + r div 0x40000), char_of (0x80 + (r div 0x1000) mod 0x40),
         char_of (0x80 + (r div 0x40) mod 0x40), char_of (0x80 + r mod 0x40)])"

definition replacementChar :: string where
  \<comment> \<open>U+FFFD in UTF-8\<close>
  "replacementChar = [CHR 0xEF, CHR 0xBF, CHR 0xBD]"

definition byteIn :: "nat \<Rightarrow> nat \<Rightarrow> string \<Rightarrow> nat \<Rightarrow> bool" where
  "byteIn lo hi s i \<longleftrightarrow> i < length s \<and> lo \<le> of_char (s ! i) \<and> (of_char (s ! i) :: nat) \<le> hi"

definition utf8Len :: "string \<Rightarrow> nat" where
  \<comment> \<open>the width of the well-formed UTF-8 sequence at the head of the string, as
      \<open>utf8.DecodeRune\<close> accepts it; 0 when the head is ill-formed or the string is empty\<close>
  "utf8Len s =
     (if byteIn 0x00 0x7F s 0 then 1
      else if byteIn 0xC2 0xDF s 0 \<and> byteIn 0x80 0xBF s 1 then 2
      else if byteIn 0xE0 0xE0 s 0 \<and> byteIn 0xA0 0xBF s 1 \<and> byteIn 0x80 0xBF s 2 then 3
      else if byteIn 0xE1 0xEC s 0 \<and> byteIn 0x80 0xBF s 1 \<and> byteIn 0x80 0xBF s 2 then 3
      else if byteIn 0xED 0xED s 0 \<and> byteIn 0x80 0x9F s 1 \<and> byteIn 0x80 0xBF s 2 then 3
      else if byteIn 0xEE 0xEF s 0 \<and> byteIn 0x80 0xBF s 1 \<and> byteIn 0x80 0xBF s 2 then 3
      else if byteIn 0xF0 0xF0 s 0 \<and> byteIn 0x90 0xBF s 1 \<and> byteIn 0x80 0xBF s 2 \<and>
              byteIn 0x80 0xBF s 3 then 4
      else if byteIn 0xF1 0xF3 s 0 \<and> byteIn 0x80 0xBF s 1 \<and> byteIn 0x80 0xBF s 2 \<and>
              byteIn 0x80 0xBF s 3 then 4
      else if byteIn 0xF4 0xF4 s 0 \<and> byteIn 0x80 0x8F s 1 \<and> byteIn 0x80 0xBF s 2 \<and>
              byteIn 0x80 0xBF s 3 then 4
      else 0)"

definition unescape :: "char \<Rightarrow> char" where
  "unescape e =
     (if e = CHR ''b'' then CHR 0x08
      else if e = CHR ''f'' then CHR 0x0C
      else if e = CHR ''n'' then CHR 0x0A
      else if e = CHR ''r'' then CHR 0x0D
      else if e = CHR ''t'' then CHR 0x09
      else e)"

function unquote :: "string \<Rightarrow> string" where
  "unquote [] = []"
| "unquote (c # cs) =
     (if c = CHR 0x5C then
        (if take 1 cs = ''u'' then
           (if 0xD800 \<le> hex4 (take 4 (drop 1 cs)) \<and> hex4 (take 4 (drop 1 cs)) < 0xE000 then
              (case getu4 (drop 5 cs) of
                 None \<Rightarrow> replacementChar @ unquote (drop 5 cs)
               | Some rr1 \<Rightarrow>
                   if hex4 (take 4 (drop 1 cs)) < 0xDC00 \<and> 0xDC00 \<le> rr1 \<and> rr1 < 0xE000
                   then EncodeRune (0x10000 + (hex4 (take 4 (drop 1 cs)) - 0xD800) * 0x400
                                      + (rr1 - 0xDC00)) @ unquote (drop 11 cs)
                   else replacementChar @ unquote (drop 5 cs))
            else EncodeRune (hex4 (take 4 (drop 1 cs))) @ unquote (drop 5 cs))
         else map unescape (take 1 cs) @ unquote (drop 1 cs))
      else if utf8Len (c # cs) = 0 then replacementChar @ unquote cs
      else take (utf8Len (c # cs)) (c # cs) @ unquote (drop (utf8Len (c # cs) - 1) cs))"
  by pat_completeness auto

termination
  by (relation "measure length") auto

definition scanKey :: "string \<Rightarrow> (string \<times> string) option" where
  "scanKey s =
     (if take 1 (skipSpace s) = [CHR 0x22] then
        (case scanString (drop 1 (skipSpace s)) of
           None \<Rightarrow> None
         | Some (key, s2) \<Rightarrow>
             if take 1 (skipSpace s2) = '':'' then Some (unquote key, drop 1 (skipSpace s2)) else None)
      else None)"

definition scanLiteral :: "string \<Rightarrow> json scan" where
  "scanLiteral s =
     (if take 1 s = [CHR 0x22] then
        (case scanString (drop 1 s) of
           None \<Rightarrow> ScanErr
         | Some (raw, r) \<Rightarrow> ScanOk (JString (unquote raw)) r)
      else if take 1 s = ''-'' \<or> list_all isDigit (take 1 s) then
        (case scanNumber s of
           None \<Rightarrow> ScanErr
         | Some x \<Rightarrow> ScanOk (JNumber (fst x)) (snd x))
      else if take 4 s = ''true'' then ScanOk (JBool True) (drop 4 s)
      else if take 5 s = ''false'' then ScanOk (JBool False) (drop 5 s)
      else if take 4 s = ''null'' then ScanOk JNull (drop 4 s)
      else ScanErr)"

datatype frame =
    InArray "json list"
  | InObject "(string \<times> json) list" string

lemma length_skipSpace: "length (skipSpace s) \<le> length s"
  by (simp add: skipSpace_def length_dropWhile_le)

lemma scanString_shorter: "scanString s = Some (raw, r) \<Longrightarrow> length r < length s"
proof (induction s arbitrary: raw r rule: scanString.induct)
  case 1
  then show ?case by simp
next
  case (2 c cs)
  consider (quote) "c = CHR 0x22"
    | (escape) "c \<noteq> CHR 0x22" "c = CHR 0x5C" "cs \<noteq> [] \<and> isEscapeChar (hd cs)"
    | (unicode) "c \<noteq> CHR 0x22" "c = CHR 0x5C" "\<not> (cs \<noteq> [] \<and> isEscapeChar (hd cs))"
        "take 1 cs = ''u'' \<and> isHex4 (drop 1 cs)"
    | (invalid) "c \<noteq> CHR 0x22" "c = CHR 0x5C" "\<not> (cs \<noteq> [] \<and> isEscapeChar (hd cs))"
        "\<not> (take 1 cs = ''u'' \<and> isHex4 (drop 1 cs))"
    | (plain) "c \<noteq> CHR 0x22" "c \<noteq> CHR 0x5C"
    by blast
  then show ?case
  proof cases
    case quote
    with "2.prems" show ?thesis by simp
  next
    case escape
    with "2.prems" obtain x where x: "scanString (drop 1 cs) = Some x" and r: "r = snd x"
      by auto
    from "2.IH"(1) [OF escape, of "fst x" "snd x"] x
    have "length (snd x) < length (drop 1 cs)" by simp
    with r show ?thesis by simp
  next
    case unicode
    with "2.prems" obtain x where x: "scanString (drop 5 cs) = Some x" and r: "r = snd x"
      by auto
    from "2.IH"(2) [OF unicode, of "fst x" "snd x"] x
    have "length (snd x) < length (drop 5 cs)" by simp
    with r show ?thesis by simp
  next
    case invalid
    with "2.prems" show ?thesis by (auto split: if_splits)
  next
    case plain
    show ?thesis
    proof (cases "(of_char c :: nat) < 0x20")
      case True
      with plain "2.prems" show ?thesis by simp
    next
      case False
      with plain "2.prems" obtain x where x: "scanString cs = Some x" and r: "r = snd x"
        by auto
      from "2.IH"(3) [OF plain False, of "fst x" "snd x"] x have "length (snd x) < length cs"
        by simp
      with r show ?thesis by simp
    qed
  qed
qed

lemma scanDigits_shorter: "scanDigits s = Some x \<Longrightarrow> length (snd x) < length s"
proof -
  assume a: "scanDigits s = Some x"
  then have ne: "takeWhile isDigit s \<noteq> []" and r: "snd x = dropWhile isDigit s"
    by (auto simp: scanDigits_def split: if_splits)
  have "length (takeWhile isDigit s) + length (dropWhile isDigit s) = length s"
    by (metis length_append takeWhile_dropWhile_id)
  with ne r show ?thesis by (cases "takeWhile isDigit s") auto
qed

lemma take1_nonempty: "take 1 s = [c] \<Longrightarrow> s \<noteq> []"
  by auto

lemma scanInt_shorter: "scanInt s = Some x \<Longrightarrow> length (snd x) < length s"
  using scanDigits_shorter [of s x] take1_nonempty [of s "CHR ''0''"]
  by (auto simp: scanInt_def split: if_splits)

lemma scanFrac_le: "scanFrac s = Some x \<Longrightarrow> length (snd x) \<le> length s"
  by (auto simp: scanFrac_def split: if_splits dest!: scanDigits_shorter)

lemma scanExp_le: "scanExp s = Some x \<Longrightarrow> length (snd x) \<le> length s"
  by (auto simp: scanExp_def split: if_splits dest!: scanDigits_shorter)

lemma scanNumber_shorter: "scanNumber s = Some x \<Longrightarrow> length (snd x) < length s"
proof -
  assume a: "scanNumber s = Some x"
  then obtain n ip fp ep where
    ip: "scanInt (drop n s) = Some ip" and
    fp: "scanFrac (snd ip) = Some fp" and
    ep: "scanExp (snd fp) = Some ep" and
    r: "snd x = snd ep"
    unfolding scanNumber_def Let_def by (auto split: option.splits)
  from scanInt_shorter [OF ip] scanFrac_le [OF fp] scanExp_le [OF ep] r
  show ?thesis by simp
qed

lemma scanKey_shorter: "scanKey s = Some (k, r) \<Longrightarrow> length r < length s"
proof -
  assume a: "scanKey s = Some (k, r)"
  then obtain raw s2 where q: "take 1 (skipSpace s) = [CHR 0x22]"
    and str: "scanString (drop 1 (skipSpace s)) = Some (raw, s2)"
    and r: "r = drop 1 (skipSpace s2)"
    by (auto simp: scanKey_def split: if_splits option.splits)
  from scanString_shorter [OF str] have "length s2 < length (skipSpace s)" by simp
  with length_skipSpace [of s] length_skipSpace [of s2] r show ?thesis by simp
qed

lemma scanLiteral_shorter: "scanLiteral s = ScanOk v r \<Longrightarrow> length r < length s"
proof -
  assume a: "scanLiteral s = ScanOk v r"
  consider (str) "take 1 s = [CHR 0x22]"
    | (num) "take 1 s \<noteq> [CHR 0x22]" "take 1 s = ''-'' \<or> list_all isDigit (take 1 s)"
    | (lit) "take 1 s \<noteq> [CHR 0x22]" "\<not> (take 1 s = ''-'' \<or> list_all isDigit (take 1 s))"
    by blast
  then show ?thesis
  proof cases
    case str
    with a obtain raw where x: "scanString (drop 1 s) = Some (raw, r)"
      by (auto simp: scanLiteral_def split: option.splits)
    from scanString_shorter [OF x] show ?thesis by simp
  next
    case num
    with a obtain x where x: "scanNumber s = Some x" and r: "r = snd x"
      by (auto simp: scanLiteral_def split: option.splits)
    from scanNumber_shorter [OF x] r show ?thesis by simp
  next
    case lit
    with a have "s \<noteq> [] \<and> (r = drop 4 s \<or> r = drop 5 s)"
      by (auto simp: scanLiteral_def split: if_splits)
    then show ?thesis by (cases s) auto
  qed
qed

function scanFrom :: "frame list \<Rightarrow> string \<Rightarrow> json scan"
  and endValue :: "json \<Rightarrow> frame list \<Rightarrow> string \<Rightarrow> json scan" where
  "scanFrom stack s =
     (case skipSpace s of
        [] \<Rightarrow> ScanErr
      | c # cs \<Rightarrow>
          if c = CHR ''{'' then
            (if maxNestingDepth \<le> length stack then ScanErr
             else if take 1 (skipSpace cs) = ''}''
             then endValue (JObject []) stack (drop 1 (skipSpace cs))
             else (case scanKey cs of
                     None \<Rightarrow> ScanErr
                   | Some (key, r) \<Rightarrow> scanFrom (InObject [] key # stack) r))
          else if c = CHR ''['' then
            (if maxNestingDepth \<le> length stack then ScanErr
             else if take 1 (skipSpace cs) = '']''
             then endValue (JArray []) stack (drop 1 (skipSpace cs))
             else scanFrom (InArray [] # stack) cs)
          else (case scanLiteral (c # cs) of
                  ScanErr \<Rightarrow> ScanErr
                | ScanOk v r \<Rightarrow> endValue v stack r))"
| "endValue v [] s = ScanOk v s"
| "endValue v (InArray xs # stack) s =
     (if take 1 (skipSpace s) = '','' then scanFrom (InArray (xs @ [v]) # stack) (drop 1 (skipSpace s))
      else if take 1 (skipSpace s) = '']''
      then endValue (JArray (xs @ [v])) stack (drop 1 (skipSpace s))
      else ScanErr)"
| "endValue v (InObject kvs key # stack) s =
     (if take 1 (skipSpace s) = '','' then
        (case scanKey (drop 1 (skipSpace s)) of
           None \<Rightarrow> ScanErr
         | Some (key', r) \<Rightarrow> scanFrom (InObject (kvs @ [(key, v)]) key' # stack) r)
      else if take 1 (skipSpace s) = ''}''
      then endValue (JObject (kvs @ [(key, v)])) stack (drop 1 (skipSpace s))
      else ScanErr)"
  by pat_completeness auto

termination
proof (relation "measure (\<lambda>x. case x of
        Inl (stack, s) \<Rightarrow> length s
      | Inr (v, stack, s) \<Rightarrow> length s)", goal_cases)
  case 1
  show ?case by simp
next
  case (2 stack s c cs)
  then show ?case using length_skipSpace [of s] length_skipSpace [of cs] by simp
next
  case (3 stack s c cs x key r)
  then show ?case using length_skipSpace [of s] scanKey_shorter [of cs key r] by simp
next
  case (4 stack s c cs)
  then show ?case using length_skipSpace [of s] length_skipSpace [of cs] by simp
next
  case (5 stack s c cs)
  then show ?case using length_skipSpace [of s] by simp
next
  case (6 stack s c cs v r)
  then show ?case using length_skipSpace [of s] scanLiteral_shorter [of "c # cs" v r] by simp
next
  case (7 v xs stack s)
  then show ?case using length_skipSpace [of s] take1_nonempty [of "skipSpace s" "CHR '',''"]
    by (cases "skipSpace s") auto
next
  case (8 v xs stack s)
  then show ?case using length_skipSpace [of s] take1_nonempty [of "skipSpace s" "CHR '']''"]
    by (cases "skipSpace s") auto
next
  case (9 v kvs key stack s x key' r)
  then show ?case
    using length_skipSpace [of s] scanKey_shorter [of "drop 1 (skipSpace s)" key' r] by simp
next
  case (10 v kvs key stack s)
  then show ?case using length_skipSpace [of s] take1_nonempty [of "skipSpace s" "CHR ''}''"]
    by (cases "skipSpace s") auto
qed

definition readValue :: "string \<Rightarrow> json scan" where
  "readValue s = scanFrom [] s"

declare scanFrom.simps [simp del] endValue.simps [simp del]

section \<open>Decoding JSON into the program's structs\<close>

text \<open>
  A model of \<open>json.Unmarshal\<close> and \<open>json.Decoder.Decode\<close> for the three struct types
  the program decodes into. A key selects the field whose name it equals, or else the
  field whose name it equals under the package's case folding; \<open>null\<close> leaves a field
  as it is (and clears a pointer); a value of the wrong kind is an
  \<open>UnmarshalTypeError\<close>, after which decoding goes on, and the first error is the one
  returned; a key that selects no field is skipped, or is an error for a decoder with
  \<open>DisallowUnknownFields\<close>.
\<close>

datatype json_error =
    EOF
  | SyntaxError
  | UnmarshalTypeError string string string string
  | UnknownField string

fun foldName :: "string \<Rightarrow> string" where
  \<comment> \<open>the package's \<open>foldName\<close>: ASCII letters to upper case, and the two runes beyond
      ASCII whose fold is an ASCII letter, the Kelvin sign U+212A and the long s U+017F;
      every other rune folds to a rune beyond ASCII and is left as it stands\<close>
  "foldName [] = []"
| "foldName (c # cs) =
     (if c \<in> set ''abcdefghijklmnopqrstuvwxyz'' then char_of (of_char c - (32::nat)) # foldName cs
      else if take 3 (c # cs) = [CHR 0xE2, CHR 0x84, CHR 0xAA] then CHR ''K'' # foldName (drop 2 cs)
      else if take 2 (c # cs) = [CHR 0xC5, CHR 0xBF] then CHR ''S'' # foldName (drop 1 cs)
      else c # foldName cs)"

definition findField :: "string list \<Rightarrow> string \<Rightarrow> string option" where
  "findField names key =
     (if key \<in> set names then Some key
      else find (\<lambda>n. foldName n = foldName key) names)"

definition valueKind :: "json \<Rightarrow> string" where
  \<comment> \<open>the field \<open>Value\<close> of an \<open>UnmarshalTypeError\<close>\<close>
  "valueKind v =
     (case v of
        JNull \<Rightarrow> ''null''
      | JBool b \<Rightarrow> ''bool''
      | JNumber lit \<Rightarrow> ''number''
      | JString s \<Rightarrow> ''string''
      | JArray xs \<Rightarrow> ''array''
      | JObject kvs \<Rightarrow> ''object'')"

definition firstError :: "json_error option \<Rightarrow> json_error option \<Rightarrow> json_error option" where
  \<comment> \<open>\<open>saveError\<close>: an error is kept only when none was saved before\<close>
  "firstError saved e = (case saved of None \<Rightarrow> e | Some x \<Rightarrow> Some x)"

definition storeBool :: "string \<Rightarrow> string \<Rightarrow> json \<Rightarrow> bool \<Rightarrow> json_error option \<times> bool" where
  "storeBool struct field v old =
     (case v of
        JNull \<Rightarrow> (None, old)
      | JBool b \<Rightarrow> (None, b)
      | JNumber lit \<Rightarrow> (Some (UnmarshalTypeError (valueKind v) struct field ''bool''), old)
      | JString s \<Rightarrow> (Some (UnmarshalTypeError (valueKind v) struct field ''bool''), old)
      | JArray xs \<Rightarrow> (Some (UnmarshalTypeError (valueKind v) struct field ''bool''), old)
      | JObject kvs \<Rightarrow> (Some (UnmarshalTypeError (valueKind v) struct field ''bool''), old))"

definition storeString :: "string \<Rightarrow> string \<Rightarrow> json \<Rightarrow> string \<Rightarrow> json_error option \<times> string" where
  "storeString struct field v old =
     (case v of
        JNull \<Rightarrow> (None, old)
      | JBool b \<Rightarrow> (Some (UnmarshalTypeError (valueKind v) struct field ''string''), old)
      | JNumber lit \<Rightarrow> (Some (UnmarshalTypeError (valueKind v) struct field ''string''), old)
      | JString s \<Rightarrow> (None, s)
      | JArray xs \<Rightarrow> (Some (UnmarshalTypeError (valueKind v) struct field ''string''), old)
      | JObject kvs \<Rightarrow> (Some (UnmarshalTypeError (valueKind v) struct field ''string''), old))"

definition storeInt :: "string \<Rightarrow> string \<Rightarrow> json \<Rightarrow> int \<Rightarrow> json_error option \<times> int" where
  \<comment> \<open>a number is stored when \<open>strconv.ParseInt\<close> accepts its literal as a 64-bit integer\<close>
  "storeInt struct field v old =
     (case v of
        JNull \<Rightarrow> (None, old)
      | JBool b \<Rightarrow> (Some (UnmarshalTypeError (valueKind v) struct field ''int''), old)
      | JNumber lit \<Rightarrow>
          (case Atoi lit of
             None \<Rightarrow> (Some (UnmarshalTypeError (''number '' @ lit) struct field ''int''), old)
           | Some i \<Rightarrow> (None, i))
      | JString s \<Rightarrow> (Some (UnmarshalTypeError (valueKind v) struct field ''int''), old)
      | JArray xs \<Rightarrow> (Some (UnmarshalTypeError (valueKind v) struct field ''int''), old)
      | JObject kvs \<Rightarrow> (Some (UnmarshalTypeError (valueKind v) struct field ''int''), old))"

record replyError =
  Message :: string
  Num :: int
  Symbol :: string
  LogID :: string

record changeRegistrationReply =
  OK :: bool
  Result :: bool
  Error :: "replyError option"
  Action :: string

record config =
  Token :: string

definition replyError_zero :: replyError where
  "replyError_zero = \<lparr>Message = [], Num = 0, Symbol = [], LogID = []\<rparr>"

definition changeRegistrationReply_zero :: changeRegistrationReply where
  "changeRegistrationReply_zero = \<lparr>OK = False, Result = False, Error = None, Action = []\<rparr>"

definition config_zero :: config where
  "config_zero = \<lparr>Token = []\<rparr>"

definition replyError_member ::
  "json_error option \<times> replyError \<Rightarrow> string \<times> json \<Rightarrow> json_error option \<times> replyError" where
  "replyError_member st kv =
     (let saved = fst st; e = snd st; v = snd kv
      in case findField [''message'', ''num'', ''symbol'', ''log_id''] (fst kv) of
           None \<Rightarrow> st
         | Some f \<Rightarrow>
             if f = ''message'' then
               (let r = storeString ''replyError'' ''error.message'' v (Message e)
                in (firstError saved (fst r), e\<lparr>Message := snd r\<rparr>))
             else if f = ''num'' then
               (let r = storeInt ''replyError'' ''error.num'' v (Num e)
                in (firstError saved (fst r), e\<lparr>Num := snd r\<rparr>))
             else if f = ''symbol'' then
               (let r = storeString ''replyError'' ''error.symbol'' v (Symbol e)
                in (firstError saved (fst r), e\<lparr>Symbol := snd r\<rparr>))
             else
               (let r = storeString ''replyError'' ''error.log_id'' v (LogID e)
                in (firstError saved (fst r), e\<lparr>LogID := snd r\<rparr>)))"

definition storeReplyError ::
  "json \<Rightarrow> replyError option \<Rightarrow> json_error option \<times> replyError option" where
  \<comment> \<open>the field \<open>Error *replyError\<close>: \<open>null\<close> clears the pointer, any other value
      allocates the struct when the pointer is nil, and an object fills its fields\<close>
  "storeReplyError v old =
     (let target = (case old of None \<Rightarrow> replyError_zero | Some e \<Rightarrow> e)
      in case v of
           JNull \<Rightarrow> (None, None)
         | JObject kvs \<Rightarrow>
             (let r = foldl replyError_member (None, target) kvs in (fst r, Some (snd r)))
         | JBool b \<Rightarrow>
             (Some (UnmarshalTypeError (valueKind v) ''changeRegistrationReply'' ''error''
                ''main.replyError''), Some target)
         | JNumber lit \<Rightarrow>
             (Some (UnmarshalTypeError (valueKind v) ''changeRegistrationReply'' ''error''
                ''main.replyError''), Some target)
         | JString s \<Rightarrow>
             (Some (UnmarshalTypeError (valueKind v) ''changeRegistrationReply'' ''error''
                ''main.replyError''), Some target)
         | JArray xs \<Rightarrow>
             (Some (UnmarshalTypeError (valueKind v) ''changeRegistrationReply'' ''error''
                ''main.replyError''), Some target))"

definition reply_member ::
  "json_error option \<times> changeRegistrationReply \<Rightarrow> string \<times> json \<Rightarrow>
   json_error option \<times> changeRegistrationReply" where
  "reply_member st kv =
     (let saved = fst st; reply = snd st; v = snd kv
      in case findField [''ok'', ''result'', ''error'', ''action''] (fst kv) of
           None \<Rightarrow> st
         | Some f \<Rightarrow>
             if f = ''ok'' then
               (let r = storeBool ''changeRegistrationReply'' ''ok'' v (OK reply)
                in (firstError saved (fst r), reply\<lparr>OK := snd r\<rparr>))
             else if f = ''result'' then
               (let r = storeBool ''changeRegistrationReply'' ''result'' v (Result reply)
                in (firstError saved (fst r), reply\<lparr>Result := snd r\<rparr>))
             else if f = ''error'' then
               (let r = storeReplyError v (Error reply)
                in (firstError saved (fst r), reply\<lparr>Error := snd r\<rparr>))
             else
               (let r = storeString ''changeRegistrationReply'' ''action'' v (Action reply)
                in (firstError saved (fst r), reply\<lparr>Action := snd r\<rparr>)))"

definition decode_reply :: "json \<Rightarrow> json_error option \<times> changeRegistrationReply" where
  "decode_reply v =
     (case v of
        JNull \<Rightarrow> (None, changeRegistrationReply_zero)
      | JObject kvs \<Rightarrow> foldl reply_member (None, changeRegistrationReply_zero) kvs
      | JBool b \<Rightarrow>
          (Some (UnmarshalTypeError (valueKind v) [] [] ''main.changeRegistrationReply''),
           changeRegistrationReply_zero)
      | JNumber lit \<Rightarrow>
          (Some (UnmarshalTypeError (valueKind v) [] [] ''main.changeRegistrationReply''),
           changeRegistrationReply_zero)
      | JString s \<Rightarrow>
          (Some (UnmarshalTypeError (valueKind v) [] [] ''main.changeRegistrationReply''),
           changeRegistrationReply_zero)
      | JArray xs \<Rightarrow>
          (Some (UnmarshalTypeError (valueKind v) [] [] ''main.changeRegistrationReply''),
           changeRegistrationReply_zero))"

definition Unmarshal_reply :: "string \<Rightarrow> json_error + changeRegistrationReply" where
  \<comment> \<open>\<open>json.Unmarshal(body, &reply)\<close> on a zero \<open>reply\<close>: the text must be one value with
      nothing but white space around it\<close>
  "Unmarshal_reply data =
     (case readValue data of
        ScanErr \<Rightarrow> Inl SyntaxError
      | ScanOk v rest \<Rightarrow>
          if skipSpace rest = [] then
            (case fst (decode_reply v) of
               None \<Rightarrow> Inr (snd (decode_reply v))
             | Some e \<Rightarrow> Inl e)
          else Inl SyntaxError)"

definition config_member ::
  "json_error option \<times> config \<Rightarrow> string \<times> json \<Rightarrow> json_error option \<times> config" where
  \<comment> \<open>with \<open>DisallowUnknownFields\<close>\<close>
  "config_member st kv =
     (let saved = fst st; cfg = snd st
      in case findField [''token''] (fst kv) of
           None \<Rightarrow> (firstError saved (Some (UnknownField (fst kv))), cfg)
         | Some f \<Rightarrow>
             (let r = storeString ''config'' ''token'' (snd kv) (Token cfg)
              in (firstError saved (fst r), cfg\<lparr>Token := snd r\<rparr>)))"

definition decode_config :: "json \<Rightarrow> json_error option \<times> config" where
  "decode_config v =
     (case v of
        JNull \<Rightarrow> (None, config_zero)
      | JObject kvs \<Rightarrow> foldl config_member (None, config_zero) kvs
      | JBool b \<Rightarrow> (Some (UnmarshalTypeError (valueKind v) [] [] ''main.config''), config_zero)
      | JNumber lit \<Rightarrow> (Some (UnmarshalTypeError (valueKind v) [] [] ''main.config''), config_zero)
      | JString s \<Rightarrow> (Some (UnmarshalTypeError (valueKind v) [] [] ''main.config''), config_zero)
      | JArray xs \<Rightarrow> (Some (UnmarshalTypeError (valueKind v) [] [] ''main.config''), config_zero))"

definition decode_empty_struct :: "json \<Rightarrow> json_error option" where
  \<comment> \<open>decoding into \<open>&struct{}{}\<close> with \<open>DisallowUnknownFields\<close>\<close>
  "decode_empty_struct v =
     (case v of
        JNull \<Rightarrow> None
      | JObject kvs \<Rightarrow> (case kvs of [] \<Rightarrow> None | kv # rest \<Rightarrow> Some (UnknownField (fst kv)))
      | JBool b \<Rightarrow> Some (UnmarshalTypeError (valueKind v) [] [] ''struct {}'')
      | JNumber lit \<Rightarrow> Some (UnmarshalTypeError (valueKind v) [] [] ''struct {}'')
      | JString s \<Rightarrow> Some (UnmarshalTypeError (valueKind v) [] [] ''struct {}'')
      | JArray xs \<Rightarrow> Some (UnmarshalTypeError (valueKind v) [] [] ''struct {}''))"

definition Decode_config :: "string \<Rightarrow> json_error + config \<times> string" where
  \<comment> \<open>\<open>decoder.Decode(&cfg)\<close> on a zero \<open>cfg\<close>, the decoder standing before the given text:
      the error, or the struct and the text left in the stream. \<open>EOF\<close> is \<open>io.EOF\<close>: the
      stream holds white space only. \<open>SyntaxError\<close> stands for a \<open>*json.SyntaxError\<close> and
      for \<open>io.ErrUnexpectedEOF\<close>.\<close>
  "Decode_config s =
     (if skipSpace s = [] then Inl EOF
      else case readValue s of
             ScanErr \<Rightarrow> Inl SyntaxError
           | ScanOk v rest \<Rightarrow>
               (case fst (decode_config v) of
                  None \<Rightarrow> Inr (snd (decode_config v), rest)
                | Some e \<Rightarrow> Inl e))"

definition Decode_empty_struct :: "string \<Rightarrow> json_error option" where
  \<comment> \<open>\<open>decoder.Decode(&struct{}{})\<close>: the returned error, \<open>None\<close> for \<open>nil\<close>\<close>
  "Decode_empty_struct s =
     (if skipSpace s = [] then Some EOF
      else case readValue s of
             ScanErr \<Rightarrow> Some SyntaxError
           | ScanOk v rest \<Rightarrow> decode_empty_struct v)"

section \<open>Media types\<close>

text \<open>
  A model of \<open>mime.ParseMediaType\<close> (Go 1.21), reduced to what \<open>isJSONContentType\<close>
  looks at: the media type and whether an error is returned. The parameters are parsed
  because a malformed or contradictory parameter is an error.
\<close>

fun ToLower :: "string \<Rightarrow> string" where
  \<comment> \<open>\<open>strings.ToLower\<close>: ASCII letters, and the two runes beyond ASCII whose lower case
      is an ASCII letter, U+0130 and the Kelvin sign U+212A. Any other rune beyond ASCII
      stays beyond ASCII and is left as it stands: it never makes a media type valid.\<close>
  "ToLower [] = []"
| "ToLower (c # cs) =
     (if c \<in> set ''ABCDEFGHIJKLMNOPQRSTUVWXYZ'' then char_of (of_char c + (32::nat)) # ToLower cs
      else if take 2 (c # cs) = [CHR 0xC4, CHR 0xB0] then CHR ''i'' # ToLower (drop 1 cs)
      else if take 3 (c # cs) = [CHR 0xE2, CHR 0x84, CHR 0xAA] then CHR ''k'' # ToLower (drop 2 cs)
      else c # ToLower cs)"

definition isTSpecial :: "char \<Rightarrow> bool" where
  "isTSpecial c \<longleftrightarrow> c \<in> set (''()<>@,;:'' @ [CHR 0x5C, CHR 0x22] @ ''/[]?='')"

definition isTokenChar :: "char \<Rightarrow> bool" where
  "isTokenChar c \<longleftrightarrow> 0x20 < (of_char c :: nat) \<and> (of_char c :: nat) < 0x7F \<and> \<not> isTSpecial c"

definition consumeToken :: "string \<Rightarrow> string \<times> string" where
  "consumeToken v = (takeWhile isTokenChar v, dropWhile isTokenChar v)"

fun consumeQuoted :: "string \<Rightarrow> string \<Rightarrow> (string \<times> string) option" where
  \<comment> \<open>the loop of \<open>consumeValue\<close> over a quoted string, after its opening quote\<close>
  "consumeQuoted [] buffer = None"
| "consumeQuoted (r # rs) buffer =
     (if r = CHR 0x22 then Some (buffer, rs)
      else if r = CHR 0x5C \<and> rs \<noteq> [] \<and> list_all isTSpecial (take 1 rs)
      then consumeQuoted (drop 1 rs) (buffer @ take 1 rs)
      else if r = CHR 0x0D \<or> r = CHR 0x0A then None
      else consumeQuoted rs (buffer @ [r]))"

definition consumeValue :: "string \<Rightarrow> string \<times> string" where
  "consumeValue v =
     (if v = [] then ([], [])
      else if take 1 v = [CHR 0x22] then
        (case consumeQuoted (drop 1 v) [] of
           None \<Rightarrow> ([], v)
         | Some r \<Rightarrow> r)
      else consumeToken v)"

definition consumeMediaParam :: "string \<Rightarrow> (string \<times> string \<times> string) option" where
  \<comment> \<open>\<open>None\<close> is the failure result, an empty parameter name\<close>
  "consumeMediaParam v =
     (let rest = TrimLeftSpace v
      in if take 1 rest = '';'' then
           (let rest1 = TrimLeftSpace (drop 1 rest);
                param = ToLower (fst (consumeToken rest1));
                rest2 = TrimLeftSpace (snd (consumeToken rest1))
            in if param = [] then None
               else if take 1 rest2 = ''='' then
                 (let rest3 = TrimLeftSpace (drop 1 rest2);
                      val = fst (consumeValue rest3);
                      rest4 = snd (consumeValue rest3)
                  in if val = [] \<and> rest4 = rest3 then None
                     else Some (param, val, rest4))
               else None)
         else None)"

lemma length_TrimLeftSpace: "length (TrimLeftSpace s) \<le> length s"
proof (induction s rule: TrimLeftSpace.induct)
  case 1
  then show ?case by simp
next
  case (2 c cs)
  then show ?case by (auto simp del: spaceRuneLen_def split: if_splits)
qed

lemma consumeQuoted_shorter:
  "consumeQuoted s buffer = Some x \<Longrightarrow> length (snd x) < length s"
proof (induction s buffer arbitrary: x rule: consumeQuoted.induct)
  case (1 buffer)
  then show ?case by simp
next
  case (2 r rs buffer)
  consider (quote) "r = CHR 0x22"
    | (escape) "r \<noteq> CHR 0x22" "r = CHR 0x5C \<and> rs \<noteq> [] \<and> list_all isTSpecial (take 1 rs)"
    | (newline) "r \<noteq> CHR 0x22" "\<not> (r = CHR 0x5C \<and> rs \<noteq> [] \<and> list_all isTSpecial (take 1 rs))"
        "r = CHR 0x0D \<or> r = CHR 0x0A"
    | (plain) "r \<noteq> CHR 0x22" "\<not> (r = CHR 0x5C \<and> rs \<noteq> [] \<and> list_all isTSpecial (take 1 rs))"
        "\<not> (r = CHR 0x0D \<or> r = CHR 0x0A)"
    by blast
  then show ?case
  proof cases
    case quote
    with "2.prems" show ?thesis by auto
  next
    case escape
    with "2.prems" have "consumeQuoted (drop 1 rs) (buffer @ take 1 rs) = Some x" by simp
    from "2.IH"(1) [OF escape this] show ?thesis by simp
  next
    case newline
    with "2.prems" show ?thesis by auto
  next
    case plain
    with "2.prems" have "consumeQuoted rs (buffer @ [r]) = Some x" by auto
    from "2.IH"(2) [OF plain this] show ?thesis by simp
  qed
qed

lemma length_consumeToken: "length (snd (consumeToken s)) \<le> length s"
  by (simp add: consumeToken_def length_dropWhile_le)

lemma length_consumeValue: "length (snd (consumeValue s)) \<le> length s"
proof (cases "consumeQuoted (drop 1 s) []")
  case None
  then show ?thesis using length_consumeToken [of s] by (simp add: consumeValue_def)
next
  case (Some x)
  from consumeQuoted_shorter [OF Some] have "length (snd x) \<le> length s" by simp
  with Some show ?thesis using length_consumeToken [of s] by (simp add: consumeValue_def)
qed

lemma consumeMediaParam_shorter:
  assumes "consumeMediaParam v = Some x"
  shows "length (snd (snd x)) < length v"
proof -
  let ?r = "TrimLeftSpace v"
  let ?r1 = "TrimLeftSpace (drop 1 ?r)"
  let ?r2 = "TrimLeftSpace (snd (consumeToken ?r1))"
  let ?r3 = "TrimLeftSpace (drop 1 ?r2)"
  from assms have semi: "take 1 ?r = '';''" and x: "snd (snd x) = snd (consumeValue ?r3)"
    by (auto simp: consumeMediaParam_def Let_def split: if_splits)
  from semi have "?r \<noteq> []" by auto
  then have "length (drop 1 ?r) < length ?r" by simp
  with length_TrimLeftSpace [of v] length_TrimLeftSpace [of "drop 1 ?r"]
  have 1: "length ?r1 < length v" by simp
  from length_consumeToken [of ?r1] length_TrimLeftSpace [of "snd (consumeToken ?r1)"]
  have 2: "length ?r2 \<le> length ?r1" by simp
  from length_TrimLeftSpace [of "drop 1 ?r2"] have 3: "length ?r3 \<le> length ?r2" by simp
  from 1 2 3 length_consumeValue [of ?r3] x show ?thesis by simp
qed

function parseMediaParams :: "string \<Rightarrow> (string \<times> string) list \<Rightarrow> bool" where
  \<comment> \<open>the parameter loop of \<open>ParseMediaType\<close>: \<open>True\<close> when it ends without an error\<close>
  "parseMediaParams v params =
     (if TrimLeftSpace v = [] then True
      else case consumeMediaParam (TrimLeftSpace v) of
             None \<Rightarrow> TrimSpace (TrimLeftSpace v) = '';''
           | Some x \<Rightarrow>
               if list_ex (\<lambda>kv. fst kv = fst x \<and> snd kv \<noteq> fst (snd x)) params then False
               else parseMediaParams (snd (snd x)) (params @ [(fst x, fst (snd x))]))"
  by pat_completeness auto

termination
proof (relation "measure (\<lambda>x. length (fst x))", goal_cases)
  case 1
  show ?case by simp
next
  case (2 v params x)
  then show ?case
    using consumeMediaParam_shorter [of "TrimLeftSpace v" x] length_TrimLeftSpace [of v]
    by simp
qed

declare parseMediaParams.simps [simp del]

definition checkMediaTypeDisposition :: "string \<Rightarrow> bool" where
  \<comment> \<open>\<open>True\<close> when no error is returned\<close>
  "checkMediaTypeDisposition s =
     (let typ = fst (consumeToken s); rest = snd (consumeToken s)
      in if typ = [] then False
         else if rest = [] then True
         else if take 1 rest = ''/'' then
           (let subtype = fst (consumeToken (drop 1 rest));
                rest1 = snd (consumeToken (drop 1 rest))
            in if subtype = [] then False else rest1 = [])
         else False)"

definition ParseMediaType :: "string \<Rightarrow> string option" where
  \<comment> \<open>the media type, or \<open>None\<close> when the returned error is not \<open>nil\<close>\<close>
  "ParseMediaType v =
     (let base = takeWhile (\<lambda>c. c \<noteq> CHR '';'') v;
          mediatype = TrimSpace (ToLower base)
      in if checkMediaTypeDisposition mediatype
         then (if parseMediaParams (drop (length base) v) [] then Some mediatype
               else None)
         else None)"

section \<open>The registration client\<close>

type_synonym actionType = string

definition actionRegister :: actionType where
  "actionRegister = ''register''"

definition actionUnregister :: actionType where
  "actionUnregister = ''unregister''"

definition changeRegistrationPath :: string where
  "changeRegistrationPath = ''/ej/api/v1/master/change-registration''"

type_synonym Values = "string \<rightharpoonup> string list"

definition Values_Set :: "Values \<Rightarrow> string \<Rightarrow> string \<Rightarrow> Values" where
  \<comment> \<open>\<open>url.Values.Set\<close>: the key gets the one value\<close>
  "Values_Set form key val = form(key \<mapsto> [val])"

function decimalDigits :: "int \<Rightarrow> string" where
  \<comment> \<open>the decimal digits of a number that is not negative\<close>
  "decimalDigits n =
     (if n < 10 then [char_of (48 + n)]
      else decimalDigits (n div 10) @ [char_of (48 + n mod 10)])"
  by pat_completeness auto

termination
  by (relation "measure nat") auto

declare decimalDigits.simps [simp del]

definition Itoa :: "int \<Rightarrow> string" where
  \<comment> \<open>\<open>strconv.Itoa\<close>\<close>
  "Itoa i = (if i < 0 then CHR ''-'' # decimalDigits (- i) else decimalDigits i)"

datatype client_error =
    UnsupportedAction string
  | CreatingRequest
  | SendingRequest
  | ReadingResponse
  | UnexpectedStatus string string
  | UnexpectedContentType string string string
  | DecodingResponse json_error
  | ServerError string int string string
  | NotAcknowledged

record request =
  Method :: string
  URL :: string
  Authorization :: string
  ContentType :: string
  Accept :: string
  Form :: Values

record response =
  StatusCode :: int
  Status :: string
  ContentTypeHeader :: string
  Body :: string

datatype exchange =
    RequestNotCreated
  | RequestNotSent
  | BodyNotRead
  | Response response

definition isJSONContentType :: "string \<Rightarrow> bool" where
  "isJSONContentType contentType =
     (case ParseMediaType contentType of
        None \<Rightarrow> False
      | Some mediaType \<Rightarrow>
          if mediaType = ''application/json'' \<or> mediaType = ''text/json'' \<or>
             mediaType = ''application/problem+json''
          then True
          else False)"

definition changeRegistration_form :: "int \<Rightarrow> userSpec \<Rightarrow> actionType \<Rightarrow> client_error + Values" where
  \<comment> \<open>lines 211 to 231: the form, or the error of the default branch\<close>
  "changeRegistration_form contestID user action =
     (let form = Map.empty;
          form = (case ID user of
                    None \<Rightarrow> form
                  | Some i \<Rightarrow> Values_Set form ''other_user_id'' (Itoa i));
          form = (if Login user \<noteq> [] then Values_Set form ''other_user_login'' (Login user)
                  else form);
          form = Values_Set form ''contest_id'' (Itoa contestID)
      in if action = actionRegister then
           Inr (Values_Set (Values_Set (Values_Set (Values_Set form
             ''op'' ''upsert'') ''status'' ''ok'') ''name'' (Name user)) ''ignore'' ''true'')
         else if action = actionUnregister then
           Inr (Values_Set (Values_Set form ''op'' ''delete'') ''ignore'' ''true'')
         else Inl (UnsupportedAction action))"

definition changeRegistration_reply :: "changeRegistrationReply \<Rightarrow> client_error option" where
  \<comment> \<open>lines 276 to 283: the returned error, \<open>None\<close> for \<open>nil\<close>\<close>
  "changeRegistration_reply reply =
     (if \<not> OK reply \<or> \<not> Result reply then
        (case Error reply of
           Some e \<Rightarrow> Some (ServerError (Message e) (Num e) (Symbol e) (LogID e))
         | None \<Rightarrow> Some NotAcknowledged)
      else None)"

definition maxPreview :: nat where
  "maxPreview = 200"

definition changeRegistration_response :: "response \<Rightarrow> client_error option" where
  \<comment> \<open>lines 257 to 283: what the call returns for a response whose body was read\<close>
  "changeRegistration_response resp =
     (if StatusCode resp < 200 \<or> StatusCode resp \<ge> 300 then
        Some (UnexpectedStatus (Status resp) (Body resp))
      else
        let contentType = ContentTypeHeader resp
        in if contentType \<noteq> [] \<and> \<not> isJSONContentType contentType then
             (let preview = Body resp;
                  preview = (if length preview > maxPreview
                             then take maxPreview preview @ ''...''
                             else preview)
              in Some (UnexpectedContentType contentType (Status resp) preview))
           else
             (case Unmarshal_reply (Body resp) of
                Inl err \<Rightarrow> Some (DecodingResponse err)
              | Inr reply \<Rightarrow> changeRegistration_reply reply))"

definition changeRegistration ::
  "('w \<Rightarrow> request \<Rightarrow> exchange \<times> 'w) \<Rightarrow> string \<Rightarrow> string \<Rightarrow> int \<Rightarrow> userSpec \<Rightarrow> actionType \<Rightarrow>
   'w \<Rightarrow> client_error option \<times> 'w" where
  \<comment> \<open>The network is a state \<open>'w\<close> and a function \<open>client\<close> that makes one exchange in it:
      the request is not created, or not sent (the deadline of the call included), or the
      body of the response is not read, or a response arrives.\<close>
  "changeRegistration client baseURL token contestID user action w =
     (case changeRegistration_form contestID user action of
        Inl err \<Rightarrow> (Some err, w)
      | Inr form \<Rightarrow>
          (let endpoint = baseURL @ changeRegistrationPath;
               req = \<lparr>Method = ''POST'', URL = endpoint, Authorization = token,
                      ContentType = ''application/x-www-form-urlencoded'',
                      Accept = ''application/json'', Form = form\<rparr>;
               x = client w req
           in case fst x of
                RequestNotCreated \<Rightarrow> (Some CreatingRequest, snd x)
              | RequestNotSent \<Rightarrow> (Some SendingRequest, snd x)
              | BodyNotRead \<Rightarrow> (Some ReadingResponse, snd x)
              | Response resp \<Rightarrow> (changeRegistration_response resp, snd x)))"

section \<open>The driver loop\<close>

definition userIdentifier :: "userSpec \<Rightarrow> string" where
  "userIdentifier u =
     (case ID u of
        Some i \<Rightarrow>
          if Login u \<noteq> [] then ''login='' @ Login u @ '' (id='' @ Itoa i @ '')''
          else ''id='' @ Itoa i
      | None \<Rightarrow>
          if Login u \<noteq> [] then ''login='' @ Login u
          else ''<unknown>'')"

definition actionVerb :: "actionType \<Rightarrow> string" where
  "actionVerb action =
     (if action = actionRegister then ''Registered''
      else if action = actionUnregister then ''Unregistered''
      else action)"

text \<open>
  The state of the two loops: the slice \<open>failures\<close>, the lines that \<open>log.Printf\<close> has
  written, and the network. A failure keeps the three arguments of its format string, a
  log line likewise.
\<close>

record 'w run =
  failures :: "(int \<times> string \<times> client_error) list"
  logged :: "(string \<times> string \<times> int) list"
  net :: 'w

definition attempt ::
  "('w \<Rightarrow> request \<Rightarrow> exchange \<times> 'w) \<Rightarrow> string \<Rightarrow> string \<Rightarrow> actionType \<Rightarrow>
   'w run \<Rightarrow> int \<times> userSpec \<Rightarrow> 'w run" where
  \<comment> \<open>the body of the inner loop\<close>
  "attempt client baseURL token action st p =
     (let contestID = fst p; user = snd p;
          x = changeRegistration client baseURL token contestID user action (net st)
      in case fst x of
           Some err \<Rightarrow>
             st\<lparr>failures := failures st @ [(contestID, userIdentifier user, err)], net := snd x\<rparr>
         | None \<Rightarrow>
             st\<lparr>logged := logged st @ [(actionVerb action, userIdentifier user, contestID)],
                net := snd x\<rparr>)"

fun users_loop ::
  "('w \<Rightarrow> request \<Rightarrow> exchange \<times> 'w) \<Rightarrow> string \<Rightarrow> string \<Rightarrow> actionType \<Rightarrow>
   int \<Rightarrow> userSpec list \<Rightarrow> 'w run \<Rightarrow> 'w run" where
  "users_loop client baseURL token action contestID [] st = st"
| "users_loop client baseURL token action contestID (user # users) st =
     users_loop client baseURL token action contestID users
       (attempt client baseURL token action st (contestID, user))"

fun contests_loop ::
  "('w \<Rightarrow> request \<Rightarrow> exchange \<times> 'w) \<Rightarrow> string \<Rightarrow> string \<Rightarrow> actionType \<Rightarrow>
   int list \<Rightarrow> userSpec list \<Rightarrow> 'w run \<Rightarrow> 'w run" where
  "contests_loop client baseURL token action [] users st = st"
| "contests_loop client baseURL token action (contestID # contests) users st =
     contests_loop client baseURL token action contests users
       (users_loop client baseURL token action contestID users st)"

definition exit_status :: "'w run \<Rightarrow> int" where
  \<comment> \<open>lines 129 to 135: \<open>os.Exit(1)\<close> when there are failures, else \<open>main\<close> returns\<close>
  "exit_status st = (if length (failures st) > 0 then 1 else 0)"

fun spec_results ::
  "('w \<Rightarrow> request \<Rightarrow> exchange \<times> 'w) \<Rightarrow> string \<Rightarrow> string \<Rightarrow> actionType \<Rightarrow>
   (int \<times> userSpec) list \<Rightarrow> 'w \<Rightarrow> client_error option list" where
  \<comment> \<open>for the statement of the loop's property: what \<open>changeRegistration\<close> returns when
      it is called for the given pairs, one after the other\<close>
  "spec_results client baseURL token action [] w = []"
| "spec_results client baseURL token action (p # ps) w =
     fst (changeRegistration client baseURL token (fst p) (snd p) action w) #
     spec_results client baseURL token action ps
       (snd (changeRegistration client baseURL token (fst p) (snd p) action w))"

section \<open>The configuration file\<close>

datatype config_error =
    OpeningConfigFile string
  | ConfigFileEmpty
  | DecodingConfig string json_error
  | MultipleJSONValues string

type_synonym filesystem = "string \<rightharpoonup> string"

definition loadConfig :: "filesystem \<Rightarrow> string \<Rightarrow> config_error + config" where
  \<comment> \<open>The file system maps a path to the content of the file that \<open>os.Open\<close> opens
      there, and to \<open>None\<close> when \<open>os.Open\<close> fails. Reading an opened file does not fail.\<close>
  "loadConfig fs path =
     (if path = [] then Inr config_zero
      else case fs path of
             None \<Rightarrow> Inl (OpeningConfigFile path)
           | Some content \<Rightarrow>
               (case Decode_config content of
                  Inl err \<Rightarrow>
                    if err = EOF then Inl ConfigFileEmpty
                    else Inl (DecodingConfig path err)
                | Inr x \<Rightarrow>
                    (case Decode_empty_struct (snd x) of
                       Some err \<Rightarrow>
                         if err = EOF then Inr (fst x)
                         else Inl (DecodingConfig path err)
                     | None \<Rightarrow> Inl (MultipleJSONValues path))))"

section \<open>The program\<close>

record flags =
  usersArg :: string
  contestsArg :: string
  actionArg :: string
  baseURLArg :: string
  tokenArg :: string
  configArg :: string

datatype fatal =
    UsersFlagRequired
  | ContestsFlagRequired
  | InvalidAction string
  | FailedToParseUsers parse_error
  | FailedToParseContests parse_error
  | FailedToLoadConfig config_error
  | NoAPIToken
  | BaseURLEmpty

datatype 'w outcome =
    Fatal fatal 'w
  | Finished int "'w run"

definition parseAction :: "string \<Rightarrow> actionType option" where
  \<comment> \<open>\<open>None\<close> is the error of the default branch\<close>
  "parseAction raw =
     (if ToLower (TrimSpace raw) = actionRegister then Some actionRegister
      else if ToLower (TrimSpace raw) = actionUnregister then Some actionUnregister
      else None)"

definition TrimSuffix_slash :: "string \<Rightarrow> string" where
  \<comment> \<open>\<open>strings.TrimSuffix(s, "/")\<close>\<close>
  "TrimSuffix_slash s = (if s \<noteq> [] \<and> last s = CHR ''/'' then butlast s else s)"

definition main ::
  "('w \<Rightarrow> request \<Rightarrow> exchange \<times> 'w) \<Rightarrow> filesystem \<Rightarrow> flags \<Rightarrow> 'w \<Rightarrow> 'w outcome" where
  \<comment> \<open>\<open>log.Fatal\<close> ends the process with status 1 where it stands: the outcome \<open>Fatal\<close>
      keeps the network as it was. The flags \<open>-timeout\<close> and \<open>-insecure\<close> configure the
      HTTP client, which is the parameter \<open>client\<close> here.\<close>
  "main client fs fl w =
     (if usersArg fl = [] then Fatal UsersFlagRequired w
      else if contestsArg fl = [] then Fatal ContestsFlagRequired w
      else case parseAction (actionArg fl) of
        None \<Rightarrow> Fatal (InvalidAction (actionArg fl)) w
      | Some action \<Rightarrow>
      (case parseUsers (usersArg fl) of
        Inl err \<Rightarrow> Fatal (FailedToParseUsers err) w
      | Inr users \<Rightarrow>
      (case parseContestIDs (contestsArg fl) of
        Inl err \<Rightarrow> Fatal (FailedToParseContests err) w
      | Inr contests \<Rightarrow>
      (case loadConfig fs (TrimSpace (configArg fl)) of
        Inl err \<Rightarrow> Fatal (FailedToLoadConfig err) w
      | Inr cfg \<Rightarrow>
          (let token = TrimSpace (tokenArg fl);
               token = (if token = [] then TrimSpace (Token cfg) else token)
           in if token = [] then Fatal NoAPIToken w
              else
                let baseURL = TrimSuffix_slash (baseURLArg fl)
                in if baseURL = [] then Fatal BaseURLEmpty w
                   else
                     let st = contests_loop client baseURL token action contests users
                                \<lparr>failures = [], logged = [], net = w\<rparr>
                     in Finished (exit_status st) st)))))"

section \<open>The text of an error\<close>

fun Contains :: "string \<Rightarrow> string \<Rightarrow> bool" where
  \<comment> \<open>\<open>strings.Contains\<close>\<close>
  "Contains [] substr = (substr = [])"
| "Contains (c # cs) substr = (take (length substr) (c # cs) = substr \<or> Contains cs substr)"

definition json_error_text :: "json_error \<Rightarrow> string option" where
  \<comment> \<open>the method \<open>Error\<close> of an \<open>UnmarshalTypeError\<close> and of \<open>io.EOF\<close>; \<open>None\<close> for the
      errors whose text is not modelled\<close>
  "json_error_text e =
     (case e of
        EOF \<Rightarrow> Some ''EOF''
      | SyntaxError \<Rightarrow> None
      | UnmarshalTypeError v struct field typ \<Rightarrow>
          if struct = [] \<and> field = [] then
            Some (''json: cannot unmarshal '' @ v @ '' into Go value of type '' @ typ)
          else
            Some (''json: cannot unmarshal '' @ v @ '' into Go struct field '' @ struct @ ''.''
                  @ field @ '' of type '' @ typ)
      | UnknownField key \<Rightarrow> None)"

definition Error_text :: "client_error \<Rightarrow> string option" where
  \<comment> \<open>The message of an error that \<open>changeRegistration\<close> returns, as its format string
      builds it from strings and integers. \<open>None\<close> where the message holds the text of a
      library error that is not modelled, or a string quoted by the verb \<open>%q\<close>.\<close>
  "Error_text e =
     (case e of
        UnsupportedAction action \<Rightarrow> None
      | CreatingRequest \<Rightarrow> None
      | SendingRequest \<Rightarrow> None
      | ReadingResponse \<Rightarrow> None
      | UnexpectedStatus status body \<Rightarrow> Some (''unexpected status '' @ status @ '': '' @ body)
      | UnexpectedContentType contentType status preview \<Rightarrow> None
      | DecodingResponse err \<Rightarrow>
          map_option (\<lambda>t. ''decoding response: '' @ t) (json_error_text err)
      | ServerError message num symbol logID \<Rightarrow>
          Some (''server error: '' @ message @ '' (code '' @ Itoa num @ '', symbol '' @ symbol
                @ '', log '' @ logID @ '')'')
      | NotAcknowledged \<Rightarrow> Some ''registration change was not acknowledged'')"

section \<open>The specification's reading of the form, the driver loop and the configuration file\<close>

text \<open>
  The definitions of this section follow the words of the specification. For the form:
  the value of every key, for the action \<open>register\<close> (\<open>True\<close>) and for the action
  \<open>unregister\<close> (\<open>False\<close>); a key that is not named has no value. For the loop:
  the failure line and the success line of one call, given the pair and what the call
  returned. For the configuration file: a JSON value fits the configuration when it is
  \<open>null\<close> or an object whose keys all select the field \<open>token\<close> (under the case folding
  of \<open>encoding/json\<close>) and whose values are strings or \<open>null\<close>; the token it gives is
  the last of these strings.
\<close>

definition spec_form :: "bool \<Rightarrow> int \<Rightarrow> userSpec \<Rightarrow> Values" where
  "spec_form register contestID user =
     (\<lambda>key.
        if key = ''other_user_id'' then map_option (\<lambda>i. [Itoa i]) (ID user)
        else if key = ''other_user_login'' then
          (if Login user = [] then None else Some [Login user])
        else if key = ''contest_id'' then Some [Itoa contestID]
        else if key = ''op'' then Some [if register then ''upsert'' else ''delete'']
        else if key = ''ignore'' then Some [''true'']
        else if register \<and> key = ''status'' then Some [''ok'']
        else if register \<and> key = ''name'' then Some [Name user]
        else None)"

definition spec_failure ::
  "(int \<times> userSpec) \<times> client_error option \<Rightarrow> (int \<times> string \<times> client_error) option" where
  "spec_failure pr = map_option (\<lambda>e. (fst (fst pr), userIdentifier (snd (fst pr)), e)) (snd pr)"

definition spec_success ::
  "actionType \<Rightarrow> (int \<times> userSpec) \<times> client_error option \<Rightarrow> (string \<times> string \<times> int) option" where
  "spec_success action pr =
     (case snd pr of
        None \<Rightarrow> Some (actionVerb action, userIdentifier (snd (fst pr)), fst (fst pr))
      | Some e \<Rightarrow> None)"

definition spec_tokenMember :: "string \<times> json \<Rightarrow> bool" where
  "spec_tokenMember kv \<longleftrightarrow>
     foldName (fst kv) = ''TOKEN'' \<and>
     (case snd kv of
        JNull \<Rightarrow> True
      | JBool b \<Rightarrow> False
      | JNumber lit \<Rightarrow> False
      | JString s \<Rightarrow> True
      | JArray xs \<Rightarrow> False
      | JObject kvs \<Rightarrow> False)"

definition spec_fitsConfig :: "json \<Rightarrow> bool" where
  "spec_fitsConfig v \<longleftrightarrow>
     (case v of
        JNull \<Rightarrow> True
      | JBool b \<Rightarrow> False
      | JNumber lit \<Rightarrow> False
      | JString s \<Rightarrow> False
      | JArray xs \<Rightarrow> False
      | JObject kvs \<Rightarrow> list_all spec_tokenMember kvs)"

definition spec_token :: "json \<Rightarrow> string" where
  "spec_token v =
     (case v of
        JObject kvs \<Rightarrow> foldl (\<lambda>t kv. case snd kv of JString s \<Rightarrow> s | _ \<Rightarrow> t) [] kvs
      | _ \<Rightarrow> [])"

section \<open>Properties of the list parsers\<close>

lemmas parser_eval =
  parseUsers_def parseContestIDs_def splitList_def FieldsFunc_def TrimSpace_def
  spaceRuneLen_def isAsciiSpace_def SplitN_2_def Atoi_def isDigit_def digitsVal_def Let_def

lemmas token_eval =
  spec_idSide_def spec_nameSide_def spec_validToken_def spec_tokenUser_def

lemma splitOn_nonempty: "splitOn f s \<noteq> []"
  by (induction s) (auto split: list.splits)

lemma splitOn_no_sep: "\<forall>c \<in> set s. \<not> f c \<Longrightarrow> splitOn f s = [s]"
  by (induction s) auto

lemma splitOn_append_sep: "f c \<Longrightarrow> splitOn f (a @ c # b) = splitOn f a @ splitOn f b"
proof (induction a)
  case Nil
  then show ?case by simp
next
  case (Cons x a)
  then show ?case using splitOn_nonempty [of f a] by (auto split: list.splits)
qed

lemma TrimSpace_Nil: "TrimSpace [] = []"
  by (simp add: TrimSpace_def)

lemma splitList_no_sep:
  "CHR '';'' \<notin> set raw \<Longrightarrow> CHR '','' \<notin> set raw \<Longrightarrow>
   splitList raw = (if TrimSpace raw = [] then [] else [TrimSpace raw])"
proof -
  assume "CHR '';'' \<notin> set raw" "CHR '','' \<notin> set raw"
  then have "\<forall>c \<in> set raw. \<not> (c = CHR '';'' \<or> c = CHR '','')" by auto
  then have "splitOn (\<lambda>r. r = CHR '';'' \<or> r = CHR '','') raw = [raw]"
    by (rule splitOn_no_sep)
  then show ?thesis
    by (auto simp: splitList_def FieldsFunc_def TrimSpace_Nil)
qed

lemma splitList_append_sep:
  "sep = CHR '';'' \<or> sep = CHR '','' \<Longrightarrow> splitList (a @ sep # b) = splitList a @ splitList b"
  using splitOn_append_sep [of "\<lambda>r. r = CHR '';'' \<or> r = CHR '',''" sep a b]
  by (auto simp: splitList_def FieldsFunc_def)

lemma parseUsers_loop_step:
  "spec_validToken item \<Longrightarrow>
   parseUsers_loop (item # items) acc = parseUsers_loop items (acc @ [spec_tokenUser item])"
  by (auto simp: spec_validToken_def spec_idSide_def spec_nameSide_def spec_tokenUser_def
      SplitN_2_def Let_def split: option.splits)

lemma parseUsers_loop_stop:
  "\<not> spec_validToken item \<Longrightarrow> parseUsers_loop (item # items) acc = Inl (spec_tokenError item)"
  by (auto simp: spec_validToken_def spec_idSide_def spec_nameSide_def spec_tokenError_def
      SplitN_2_def Let_def)

lemma parseUsers_loop_valid:
  "list_all spec_validToken items \<Longrightarrow>
   parseUsers_loop items acc = Inr (acc @ map spec_tokenUser items)"
proof (induction items arbitrary: acc)
  case Nil
  then show ?case by simp
next
  case (Cons item items)
  from Cons.prems have v: "spec_validToken item" and rest: "list_all spec_validToken items"
    by simp_all
  show ?case unfolding parseUsers_loop_step [OF v] using Cons.IH [OF rest] by simp
qed

lemma parseUsers_loop_first_bad:
  "list_all spec_validToken pre \<Longrightarrow> \<not> spec_validToken item \<Longrightarrow>
   parseUsers_loop (pre @ item # post) acc = Inl (spec_tokenError item)"
proof (induction pre arbitrary: acc)
  case Nil
  then show ?case by (simp add: parseUsers_loop_stop del: parseUsers_loop.simps)
next
  case (Cons p pre)
  from Cons.prems have v: "spec_validToken p" and rest: "list_all spec_validToken pre"
    by simp_all
  show ?case
    unfolding append_Cons parseUsers_loop_step [OF v]
    by (rule Cons.IH [OF rest Cons.prems(2)])
qed

lemma first_bad_split:
  "\<not> list_all P xs \<Longrightarrow> \<exists>pre x post. xs = pre @ x # post \<and> list_all P pre \<and> \<not> P x"
proof (induction xs)
  case Nil
  then show ?case by simp
next
  case (Cons a xs)
  show ?case
  proof (cases "P a")
    case True
    with Cons.prems have "\<not> list_all P xs" by simp
    from Cons.IH [OF this] obtain pre x post
      where "xs = pre @ x # post" "list_all P pre" "\<not> P x" by blast
    with True have "a # xs = (a # pre) @ x # post \<and> list_all P (a # pre) \<and> \<not> P x" by simp
    then show ?thesis by blast
  next
    case False
    then have "a # xs = [] @ a # xs \<and> list_all P [] \<and> \<not> P a" by simp
    then show ?thesis by blast
  qed
qed

lemma parseContestIDs_loop_ok:
  "map Atoi items = map Some ids \<Longrightarrow> parseContestIDs_loop items acc = Inr (acc @ ids)"
proof (induction items arbitrary: acc ids)
  case Nil
  then show ?case by simp
next
  case (Cons item items)
  then obtain i rest where ids: "ids = i # rest" and hd: "Atoi item = Some i"
    and tl: "map Atoi items = map Some rest"
    by (cases ids) auto
  show ?case using Cons.IH [OF tl, of "acc @ [i]"] by (simp add: ids hd)
qed

lemma parseContestIDs_loop_bad:
  "list_all (\<lambda>i. Atoi i \<noteq> None) pre \<Longrightarrow> Atoi item = None \<Longrightarrow>
   parseContestIDs_loop (pre @ item # post) acc = Inl (InvalidContestID item)"
  by (induction pre arbitrary: acc) (auto split: option.splits)

text \<open>
  C4. When the token list of the input is not empty and every token is a valid
  identifier:name token, \<open>parseUsers\<close> returns one record per token, in the order of the
  tokens; \<open>Login\<close> is the trimmed identifier side, \<open>Name\<close> the trimmed name side, and
  \<open>ID\<close> is what \<open>strconv.Atoi\<close> makes of the identifier: the integer when it parses as
  one, absent otherwise.
\<close>

theorem parseUsers_valid_list:
  "splitList raw \<noteq> [] \<Longrightarrow> list_all spec_validToken (splitList raw) \<Longrightarrow>
   parseUsers raw = Inr (map spec_tokenUser (splitList raw))"
  using parseUsers_loop_valid [of "splitList raw" "[]"] by (simp add: parseUsers_def Let_def)

theorem parseUsers_valid_list_witness:
  "parseUsers (''123:Alice; user2:User Two ;user3:User Three; '' @ [CHR 0x0A]) =
     Inr [\<lparr>ID = Some 123, Login = ''123'', Name = ''Alice''\<rparr>,
          \<lparr>ID = None, Login = ''user2'', Name = ''User Two''\<rparr>,
          \<lparr>ID = None, Login = ''user3'', Name = ''User Three''\<rparr>]"
proof -
  let ?raw = "''123:Alice; user2:User Two ;user3:User Three; '' @ [CHR 0x0A]"
  have tokens: "splitList ?raw = [''123:Alice'', ''user2:User Two'', ''user3:User Three'']"
    by (simp add: parser_eval token_eval)
  have valid: "list_all spec_validToken [''123:Alice'', ''user2:User Two'', ''user3:User Three'']"
    by (simp add: parser_eval token_eval)
  have users: "map spec_tokenUser [''123:Alice'', ''user2:User Two'', ''user3:User Three''] =
      [\<lparr>ID = Some 123, Login = ''123'', Name = ''Alice''\<rparr>,
       \<lparr>ID = None, Login = ''user2'', Name = ''User Two''\<rparr>,
       \<lparr>ID = None, Login = ''user3'', Name = ''User Three''\<rparr>]"
    by (simp add: parser_eval token_eval)
  from parseUsers_valid_list [of ?raw] tokens valid users show ?thesis
    by (simp del: append.simps)
qed

text \<open>
  C5, as the code has it. \<open>parseUsers\<close> fails exactly when the token list is empty or some
  token has no colon, an empty identifier side or an empty name side, the sides being
  what stands before and after the first colon; the error names the first such token.
  A token is not required to hold exactly one colon: further colons belong to the name.
\<close>

theorem parseUsers_fails_iff:
  "((\<exists>e. parseUsers raw = Inl e) \<longleftrightarrow>
      splitList raw = [] \<or>
      list_ex (\<lambda>item. CHR '':'' \<notin> set item \<or> spec_idSide item = [] \<or> spec_nameSide item = [])
        (splitList raw)) \<and>
   (splitList raw = pre @ item # post \<and> list_all spec_validToken pre \<and> \<not> spec_validToken item
      \<longrightarrow> parseUsers raw = Inl (spec_tokenError item))"
proof -
  have bad: "list_ex (\<lambda>item. CHR '':'' \<notin> set item \<or> spec_idSide item = [] \<or> spec_nameSide item = [])
      (splitList raw) \<longleftrightarrow> \<not> list_all spec_validToken (splitList raw)"
    by (auto simp: list_ex_iff list_all_iff spec_validToken_def)
  have first: "splitList raw = pre @ item # post \<and> list_all spec_validToken pre \<and>
      \<not> spec_validToken item \<longrightarrow> parseUsers raw = Inl (spec_tokenError item)"
    using parseUsers_loop_first_bad [of pre item post "[]"]
    by (simp add: parseUsers_def Let_def)
  have iff: "(\<exists>e. parseUsers raw = Inl e) \<longleftrightarrow>
      splitList raw = [] \<or> \<not> list_all spec_validToken (splitList raw)"
  proof (cases "splitList raw = []")
    case True
    then show ?thesis by (simp add: parseUsers_def)
  next
    case ne: False
    show ?thesis
    proof (cases "list_all spec_validToken (splitList raw)")
      case True
      with ne show ?thesis using parseUsers_loop_valid [of "splitList raw" "[]"]
        by (simp add: parseUsers_def Let_def)
    next
      case False
      from first_bad_split [OF this] obtain p x q
        where "splitList raw = p @ x # q" "list_all spec_validToken p" "\<not> spec_validToken x"
        by blast
      then have "parseUsers raw = Inl (spec_tokenError x)"
        using parseUsers_loop_first_bad [of p x q "[]"] by (simp add: parseUsers_def Let_def)
      with False show ?thesis by simp
    qed
  qed
  from iff bad first show ?thesis by blast
qed

theorem parseUsers_fails_iff_witness:
  "(\<exists>e. parseUsers ''a:b; c : ;d'' = Inl e) \<and>
   parseUsers ''a:b; c : ;d'' = Inl (UserNameEmpty ''c :'') \<and>
   (\<nexists>e. parseUsers ''a:b; c:d'' = Inl e)"
  using parseUsers_fails_iff [of "''a:b; c : ;d''" "[''a:b'']" "''c :''" "[''d'']"]
    parseUsers_fails_iff [of "''a:b; c:d''" "[]" "[]" "[]"]
  by (simp add: parser_eval token_eval spec_tokenError_def)

theorem parseUsers_two_colons_accepted:
  "count_list ''a:b:c'' (CHR '':'') = 2 \<and>
   parseUsers ''a:b:c'' = Inr [\<lparr>ID = None, Login = ''a'', Name = ''b:c''\<rparr>]"
  by (simp add: parser_eval)

text \<open>
  C6. \<open>parseContestIDs\<close> splits on semicolons and commas only: an input without either is
  one token (or none, when it is blank), whatever white space it holds, and the tokens of
  \<open>a ; b\<close> are those of \<open>a\<close> followed by those of \<open>b\<close>. With an empty token list the call
  fails; when every token parses as an integer the integers are returned in the order of
  the tokens; otherwise the call fails with an error that names the first token that does
  not parse.
\<close>

theorem parseContestIDs_spec:
  "(CHR '';'' \<notin> set raw \<and> CHR '','' \<notin> set raw \<longrightarrow>
      splitList raw = (if TrimSpace raw = [] then [] else [TrimSpace raw])) \<and>
   (sep = CHR '';'' \<or> sep = CHR '','' \<longrightarrow> splitList (a @ sep # b) = splitList a @ splitList b) \<and>
   (splitList raw = [] \<longrightarrow> parseContestIDs raw = Inl ContestListEmpty) \<and>
   (splitList raw \<noteq> [] \<and> map Atoi (splitList raw) = map Some ids \<longrightarrow>
      parseContestIDs raw = Inr ids) \<and>
   (splitList raw = pre @ item # post \<and> list_all (\<lambda>i. Atoi i \<noteq> None) pre \<and> Atoi item = None \<longrightarrow>
      parseContestIDs raw = Inl (InvalidContestID item))"
proof -
  have 1: "CHR '';'' \<notin> set raw \<and> CHR '','' \<notin> set raw \<longrightarrow>
      splitList raw = (if TrimSpace raw = [] then [] else [TrimSpace raw])"
    using splitList_no_sep by blast
  have 2: "sep = CHR '';'' \<or> sep = CHR '','' \<longrightarrow>
      splitList (a @ sep # b) = splitList a @ splitList b"
    using splitList_append_sep by blast
  have 3: "splitList raw = [] \<longrightarrow> parseContestIDs raw = Inl ContestListEmpty"
    by (simp add: parseContestIDs_def)
  have 4: "splitList raw \<noteq> [] \<and> map Atoi (splitList raw) = map Some ids \<longrightarrow>
      parseContestIDs raw = Inr ids"
    using parseContestIDs_loop_ok [of "splitList raw" ids "[]"]
    by (simp add: parseContestIDs_def Let_def)
  have 5: "splitList raw = pre @ item # post \<and> list_all (\<lambda>i. Atoi i \<noteq> None) pre \<and>
      Atoi item = None \<longrightarrow> parseContestIDs raw = Inl (InvalidContestID item)"
    using parseContestIDs_loop_bad [of pre item post "[]"]
    by (simp add: parseContestIDs_def Let_def)
  from 1 2 3 4 5 show ?thesis by blast
qed

theorem parseContestIDs_spec_witness:
  "splitList (''10'' @ CHR '';'' # '' 20,x'') = splitList ''10'' @ splitList '' 20,x'' \<and>
   parseContestIDs '' ;, '' = Inl ContestListEmpty \<and>
   parseContestIDs ''10; 20,-3'' = Inr [10, 20, -3] \<and>
   parseContestIDs ''10; 20,x;y'' = Inl (InvalidContestID ''x'') \<and>
   parseContestIDs (''101'' @ [CHR 0x09] @ ''202'' @ [CHR 0x09] @ '' 303'' @ [CHR 0x09])
     = Inl (InvalidContestID (''101'' @ [CHR 0x09] @ ''202'' @ [CHR 0x09] @ '' 303''))"
proof -
  let ?tabs = "''101'' @ [CHR 0x09] @ ''202'' @ [CHR 0x09] @ '' 303'' @ [CHR 0x09]"
  let ?token = "''101'' @ [CHR 0x09] @ ''202'' @ [CHR 0x09] @ '' 303''"
  have b: "splitList (''10'' @ CHR '';'' # '' 20,x'') = splitList ''10'' @ splitList '' 20,x''"
    using parseContestIDs_spec [of "[]" "CHR '';''" "''10''" "'' 20,x''" "[]" "[]" "[]" "[]"]
    by simp
  have blank: "splitList '' ;, '' = []" by (simp add: parser_eval)
  have c: "parseContestIDs '' ;, '' = Inl ContestListEmpty"
    using parseContestIDs_spec [of "'' ;, ''" "CHR '';''" "[]" "[]" "[]" "[]" "[]" "[]"] blank
    by simp
  have ints: "splitList ''10; 20,-3'' = [''10'', ''20'', ''-3''] \<and>
      map Atoi [''10'', ''20'', ''-3''] = map Some [10, 20, -3]"
    by (simp add: parser_eval)
  have d: "parseContestIDs ''10; 20,-3'' = Inr [10, 20, -3]"
    using parseContestIDs_spec
      [of "''10; 20,-3''" "CHR '';''" "[]" "[]" "[10, 20, -3]" "[]" "[]" "[]"] ints
    by simp
  have bad: "splitList ''10; 20,x;y'' = [''10'', ''20''] @ ''x'' # [''y''] \<and>
      list_all (\<lambda>i. Atoi i \<noteq> None) [''10'', ''20''] \<and> Atoi ''x'' = None"
    by (simp add: parser_eval)
  have e: "parseContestIDs ''10; 20,x;y'' = Inl (InvalidContestID ''x'')"
    using parseContestIDs_spec
      [of "''10; 20,x;y''" "CHR '';''" "[]" "[]" "[]" "[''10'', ''20'']" "''x''" "[''y'']"] bad
    by simp
  have nosep: "CHR '';'' \<notin> set ?tabs \<and> CHR '','' \<notin> set ?tabs" by simp
  have trim: "TrimSpace ?tabs = ?token" by (simp add: parser_eval)
  have one: "splitList ?tabs = [] @ ?token # []"
    using parseContestIDs_spec [of ?tabs "CHR '';''" "[]" "[]" "[]" "[]" "[]" "[]"] nosep trim
    by (simp del: append.simps add: append_Nil)
  have noint: "Atoi ?token = None" by (simp add: parser_eval)
  have f: "parseContestIDs ?tabs = Inl (InvalidContestID ?token)"
    using parseContestIDs_spec [of ?tabs "CHR '';''" "[]" "[]" "[]" "[]" ?token "[]"] one noint
    by (simp del: append.simps)
  from b c d e f show ?thesis by blast
qed

section \<open>Properties of the registration client\<close>

text \<open>
  C9. For every contest, user and action, the form that \<open>changeRegistration\<close> builds holds
  \<open>other_user_id\<close> exactly when the user has an \<open>ID\<close>, \<open>other_user_login\<close> exactly when
  \<open>Login\<close> is not empty, and \<open>contest_id\<close>; for the action \<open>register\<close> it holds besides
  \<open>op=upsert\<close>, \<open>status=ok\<close>, \<open>name\<close> with the user's name and \<open>ignore=true\<close>, for the
  action \<open>unregister\<close> \<open>op=delete\<close> and \<open>ignore=true\<close>, and no other field. For any
  other action no form is built: the call returns an error.
\<close>

theorem changeRegistration_form_fields:
  "changeRegistration_form contestID user actionRegister
     = Inr (spec_form True contestID user) \<and>
   changeRegistration_form contestID user actionUnregister
     = Inr (spec_form False contestID user) \<and>
   (action \<noteq> actionRegister \<and> action \<noteq> actionUnregister \<longrightarrow>
      changeRegistration_form contestID user action = Inl (UnsupportedAction action))"
proof -
  have reg: "changeRegistration_form contestID user actionRegister
      = Inr (spec_form True contestID user)"
    by (cases "ID user"; cases "Login user = []")
       (auto simp: changeRegistration_form_def Values_Set_def actionRegister_def
          spec_form_def intro!: ext)
  have unreg: "changeRegistration_form contestID user actionUnregister
      = Inr (spec_form False contestID user)"
    by (cases "ID user"; cases "Login user = []")
       (auto simp: changeRegistration_form_def Values_Set_def actionRegister_def
          actionUnregister_def spec_form_def intro!: ext)
  have other: "action \<noteq> actionRegister \<and> action \<noteq> actionUnregister \<longrightarrow>
      changeRegistration_form contestID user action = Inl (UnsupportedAction action)"
    by (simp add: changeRegistration_form_def Let_def)
  from reg unreg other show ?thesis by simp
qed

theorem changeRegistration_form_fields_witness:
  "(\<exists>form. changeRegistration_form 42 \<lparr>ID = Some 7, Login = ''7'', Name = ''Ann''\<rparr> actionRegister
        = Inr form \<and>
      form ''other_user_id'' = Some [''7''] \<and> form ''other_user_login'' = Some [''7''] \<and>
      form ''contest_id'' = Some [''42''] \<and> form ''op'' = Some [''upsert''] \<and>
      form ''status'' = Some [''ok''] \<and> form ''name'' = Some [''Ann''] \<and>
      form ''ignore'' = Some [''true''] \<and> form ''token'' = None) \<and>
   (\<exists>form. changeRegistration_form 42 \<lparr>ID = None, Login = ''ann'', Name = ''Ann''\<rparr>
        actionUnregister = Inr form \<and>
      form ''other_user_id'' = None \<and> form ''other_user_login'' = Some [''ann''] \<and>
      form ''contest_id'' = Some [''42''] \<and> form ''op'' = Some [''delete''] \<and>
      form ''status'' = None \<and> form ''name'' = None \<and> form ''ignore'' = Some [''true'']) \<and>
   changeRegistration_form 42 \<lparr>ID = Some 7, Login = ''7'', Name = ''Ann''\<rparr> ''remove''
     = Inl (UnsupportedAction ''remove'')"
proof -
  have i7: "Itoa 7 = ''7''" and i42: "Itoa 42 = ''42''" by code_simp+
  have ne: "''remove'' \<noteq> actionRegister \<and> ''remove'' \<noteq> actionUnregister"
    by (simp add: actionRegister_def actionUnregister_def)
  show ?thesis
    using changeRegistration_form_fields
        [of 42 "\<lparr>ID = Some 7, Login = ''7'', Name = ''Ann''\<rparr>" "''remove''"]
      changeRegistration_form_fields
        [of 42 "\<lparr>ID = None, Login = ''ann'', Name = ''Ann''\<rparr>" "''remove''"] ne
    by (simp add: spec_form_def i7 i42)
qed

text \<open>
  C7. When a response has a 2xx status, an acceptable content type and a body that decodes
  to a reply, \<open>changeRegistration\<close> succeeds exactly when \<open>OK\<close> and \<open>Result\<close> are both
  true. Otherwise it fails: with the error object's \<open>Message\<close>, \<open>Num\<close>, \<open>Symbol\<close> and
  \<open>LogID\<close> in the message when the reply has an error object, and with the fixed message
  that the change was not acknowledged when it has none.
\<close>

theorem changeRegistration_reply_classified:
  "200 \<le> StatusCode resp \<Longrightarrow> StatusCode resp < 300 \<Longrightarrow>
   ContentTypeHeader resp = [] \<or> isJSONContentType (ContentTypeHeader resp) \<Longrightarrow>
   Unmarshal_reply (Body resp) = Inr reply \<Longrightarrow>
   (changeRegistration_response resp = None \<longleftrightarrow> OK reply \<and> Result reply) \<and>
   (\<not> (OK reply \<and> Result reply) \<longrightarrow>
      changeRegistration_response resp =
        (case Error reply of
           Some e \<Rightarrow> Some (ServerError (Message e) (Num e) (Symbol e) (LogID e))
         | None \<Rightarrow> Some NotAcknowledged)) \<and>
   Error_text (ServerError message num symbol logID) =
     Some (''server error: '' @ message @ '' (code '' @ Itoa num @ '', symbol '' @ symbol
           @ '', log '' @ logID @ '')'') \<and>
   Error_text NotAcknowledged = Some ''registration change was not acknowledged''"
  by (auto simp: changeRegistration_response_def changeRegistration_reply_def Error_text_def
      Let_def split: option.splits)

theorem changeRegistration_reply_classified_witness:
  "changeRegistration_response
     \<lparr>StatusCode = 200, Status = ''200 OK'', ContentTypeHeader = ''application/json'',
      Body = ''{\"ok\":true,\"result\":true,\"action\":\"upsert\"}''\<rparr> = None \<and>
   changeRegistration_response
     \<lparr>StatusCode = 200, Status = ''200 OK'', ContentTypeHeader = [],
      Body = ''{\"ok\":false,\"error\":{\"message\":\"User is blocked\",\"num\":13,\"symbol\":\"USER_BLOCKED\",\"log_id\":\"log-1\"}}''\<rparr>
     = Some (ServerError ''User is blocked'' 13 ''USER_BLOCKED'' ''log-1'') \<and>
   changeRegistration_response
     \<lparr>StatusCode = 200, Status = ''200 OK'', ContentTypeHeader = [],
      Body = ''{\"ok\":true,\"result\":false}''\<rparr> = Some NotAcknowledged"
proof -
  have ct: "isJSONContentType ''application/json''" by code_simp
  have b1: "Unmarshal_reply ''{\"ok\":true,\"result\":true,\"action\":\"upsert\"}'' =
      Inr \<lparr>OK = True, Result = True, Error = None, Action = ''upsert''\<rparr>"
    by code_simp
  have b2: "Unmarshal_reply ''{\"ok\":false,\"error\":{\"message\":\"User is blocked\",\"num\":13,\"symbol\":\"USER_BLOCKED\",\"log_id\":\"log-1\"}}'' =
      Inr \<lparr>OK = False, Result = False,
           Error = Some \<lparr>Message = ''User is blocked'', Num = 13, Symbol = ''USER_BLOCKED'',
                         LogID = ''log-1''\<rparr>,
           Action = []\<rparr>"
    by code_simp
  have b3: "Unmarshal_reply ''{\"ok\":true,\"result\":false}'' =
      Inr \<lparr>OK = True, Result = False, Error = None, Action = []\<rparr>"
    by code_simp
  have 1: "changeRegistration_response
     \<lparr>StatusCode = 200, Status = ''200 OK'', ContentTypeHeader = ''application/json'',
      Body = ''{\"ok\":true,\"result\":true,\"action\":\"upsert\"}''\<rparr> = None"
    using changeRegistration_reply_classified
      [of "\<lparr>StatusCode = 200, Status = ''200 OK'', ContentTypeHeader = ''application/json'',
            Body = ''{\"ok\":true,\"result\":true,\"action\":\"upsert\"}''\<rparr>"
          "\<lparr>OK = True, Result = True, Error = None, Action = ''upsert''\<rparr>"] ct b1
    by simp
  have 2: "changeRegistration_response
     \<lparr>StatusCode = 200, Status = ''200 OK'', ContentTypeHeader = [],
      Body = ''{\"ok\":false,\"error\":{\"message\":\"User is blocked\",\"num\":13,\"symbol\":\"USER_BLOCKED\",\"log_id\":\"log-1\"}}''\<rparr>
     = Some (ServerError ''User is blocked'' 13 ''USER_BLOCKED'' ''log-1'')"
    using changeRegistration_reply_classified
      [of "\<lparr>StatusCode = 200, Status = ''200 OK'', ContentTypeHeader = [],
            Body = ''{\"ok\":false,\"error\":{\"message\":\"User is blocked\",\"num\":13,\"symbol\":\"USER_BLOCKED\",\"log_id\":\"log-1\"}}''\<rparr>"
          "\<lparr>OK = False, Result = False,
           Error = Some \<lparr>Message = ''User is blocked'', Num = 13, Symbol = ''USER_BLOCKED'',
                         LogID = ''log-1''\<rparr>,
           Action = []\<rparr>"] b2
    by simp
  have 3: "changeRegistration_response
     \<lparr>StatusCode = 200, Status = ''200 OK'', ContentTypeHeader = [],
      Body = ''{\"ok\":true,\"result\":false}''\<rparr> = Some NotAcknowledged"
    using changeRegistration_reply_classified
      [of "\<lparr>StatusCode = 200, Status = ''200 OK'', ContentTypeHeader = [],
            Body = ''{\"ok\":true,\"result\":false}''\<rparr>"
          "\<lparr>OK = True, Result = False, Error = None, Action = []\<rparr>"] b3
    by simp
  from 1 2 3 show ?thesis by blast
qed

section \<open>Properties of the driver loop\<close>

lemma users_loop_foldl:
  "users_loop client baseURL token action contestID users st =
   foldl (attempt client baseURL token action) st (map (Pair contestID) users)"
  by (induction users arbitrary: st) simp_all

lemma contests_loop_foldl:
  "contests_loop client baseURL token action contests users st =
   foldl (attempt client baseURL token action) st (List.product contests users)"
  by (induction contests arbitrary: st) (simp_all add: users_loop_foldl)

lemma length_spec_results:
  "length (spec_results client baseURL token action ps w) = length ps"
  by (induction ps arbitrary: w) simp_all

lemma foldl_attempt:
  "failures (foldl (attempt client baseURL token action) st ps) =
     failures st @ List.map_filter spec_failure
       (zip ps (spec_results client baseURL token action ps (net st))) \<and>
   logged (foldl (attempt client baseURL token action) st ps) =
     logged st @ List.map_filter (spec_success action)
       (zip ps (spec_results client baseURL token action ps (net st)))"
proof (induction ps arbitrary: st)
  case Nil
  then show ?case by (simp add: List.map_filter_simps)
next
  case (Cons p ps)
  show ?case
  proof (cases "fst (changeRegistration client baseURL token (fst p) (snd p) action (net st))")
    case None
    then show ?thesis
      using Cons.IH [of "attempt client baseURL token action st p"]
      by (simp add: attempt_def Let_def List.map_filter_simps spec_failure_def spec_success_def)
  next
    case (Some e)
    then show ?thesis
      using Cons.IH [of "attempt client baseURL token action st p"]
      by (simp add: attempt_def Let_def List.map_filter_simps spec_failure_def spec_success_def)
  qed
qed

lemma map_filter_failure_Nil:
  "length ps = length rs \<Longrightarrow>
   List.map_filter spec_failure (zip ps rs) = [] \<longleftrightarrow> list_all (\<lambda>r. r = None) rs"
proof (induction ps rs rule: list_induct2)
  case Nil
  then show ?case by (simp add: List.map_filter_simps)
next
  case (Cons p ps r rs)
  then show ?case by (cases r) (simp_all add: List.map_filter_simps spec_failure_def)
qed

text \<open>
  C8. The two loops make one call of \<open>changeRegistration\<close> for every pair of the product of
  the contests and the users, contests outermost, whatever the calls return: the final
  state is the fold of the loop body over \<open>List.product contests users\<close>. Every call that
  failed has left its failure line, every call that succeeded its log line, in the order
  of the calls. The exit status is 0 when every call returned no error and 1 otherwise.
\<close>

theorem driver_loop_attempts_all:
  "contests_loop client baseURL token action contests users \<lparr>failures = [], logged = [], net = w\<rparr>
     = foldl (attempt client baseURL token action) \<lparr>failures = [], logged = [], net = w\<rparr>
         (List.product contests users) \<and>
   length (spec_results client baseURL token action (List.product contests users) w)
     = length contests * length users \<and>
   failures (contests_loop client baseURL token action contests users
              \<lparr>failures = [], logged = [], net = w\<rparr>)
     = List.map_filter spec_failure (zip (List.product contests users)
         (spec_results client baseURL token action (List.product contests users) w)) \<and>
   logged (contests_loop client baseURL token action contests users
              \<lparr>failures = [], logged = [], net = w\<rparr>)
     = List.map_filter (spec_success action) (zip (List.product contests users)
         (spec_results client baseURL token action (List.product contests users) w)) \<and>
   exit_status (contests_loop client baseURL token action contests users
              \<lparr>failures = [], logged = [], net = w\<rparr>)
     = (if list_all (\<lambda>r. r = None)
            (spec_results client baseURL token action (List.product contests users) w)
        then 0 else 1)"
proof -
  let ?init = "\<lparr>failures = [], logged = [], net = w\<rparr>"
  let ?pairs = "List.product contests users"
  let ?results = "spec_results client baseURL token action ?pairs w"
  let ?final = "contests_loop client baseURL token action contests users ?init"
  have a: "?final = foldl (attempt client baseURL token action) ?init ?pairs"
    by (rule contests_loop_foldl)
  have b: "length ?results = length contests * length users"
    by (simp add: length_spec_results)
  have c: "failures ?final = List.map_filter spec_failure (zip ?pairs ?results)"
    unfolding a using foldl_attempt [of client baseURL token action ?init ?pairs] by simp
  have d: "logged ?final = List.map_filter (spec_success action) (zip ?pairs ?results)"
    unfolding a using foldl_attempt [of client baseURL token action ?init ?pairs] by simp
  have "failures ?final = [] \<longleftrightarrow> list_all (\<lambda>r. r = None) ?results"
    unfolding c by (rule map_filter_failure_Nil) (simp add: length_spec_results)
  then have e: "exit_status ?final = (if list_all (\<lambda>r. r = None) ?results then 0 else 1)"
    by (simp add: exit_status_def)
  from a b c d e show ?thesis by blast
qed

theorem driver_loop_attempts_all_witness:
  "failures (contests_loop
      (\<lambda>w req. (if w = (1::nat) then RequestNotSent
                 else Response \<lparr>StatusCode = 200, Status = ''200 OK'', ContentTypeHeader = [],
                                 Body = ''{\"ok\":true,\"result\":true}''\<rparr>, Suc w))
      ''http://localhost'' ''secret'' actionRegister [5, 6]
      [\<lparr>ID = Some 1, Login = ''1'', Name = ''Ann''\<rparr>, \<lparr>ID = None, Login = ''bob'', Name = ''Bob''\<rparr>]
      \<lparr>failures = [], logged = [], net = 0\<rparr>)
     = [(5, ''login=bob'', SendingRequest)] \<and>
   logged (contests_loop
      (\<lambda>w req. (if w = (1::nat) then RequestNotSent
                 else Response \<lparr>StatusCode = 200, Status = ''200 OK'', ContentTypeHeader = [],
                                 Body = ''{\"ok\":true,\"result\":true}''\<rparr>, Suc w))
      ''http://localhost'' ''secret'' actionRegister [5, 6]
      [\<lparr>ID = Some 1, Login = ''1'', Name = ''Ann''\<rparr>, \<lparr>ID = None, Login = ''bob'', Name = ''Bob''\<rparr>]
      \<lparr>failures = [], logged = [], net = 0\<rparr>)
     = [(''Registered'', ''login=1 (id=1)'', 5), (''Registered'', ''login=1 (id=1)'', 6),
        (''Registered'', ''login=bob'', 6)] \<and>
   exit_status (contests_loop
      (\<lambda>w req. (if w = (1::nat) then RequestNotSent
                 else Response \<lparr>StatusCode = 200, Status = ''200 OK'', ContentTypeHeader = [],
                                 Body = ''{\"ok\":true,\"result\":true}''\<rparr>, Suc w))
      ''http://localhost'' ''secret'' actionRegister [5, 6]
      [\<lparr>ID = Some 1, Login = ''1'', Name = ''Ann''\<rparr>, \<lparr>ID = None, Login = ''bob'', Name = ''Bob''\<rparr>]
      \<lparr>failures = [], logged = [], net = 0\<rparr>) = 1"
proof -
  let ?client = "\<lambda>w req. (if w = (1::nat) then RequestNotSent
                 else Response \<lparr>StatusCode = 200, Status = ''200 OK'', ContentTypeHeader = [],
                                 Body = ''{\"ok\":true,\"result\":true}''\<rparr>, Suc w)"
  let ?users = "[\<lparr>ID = Some 1, Login = ''1'', Name = ''Ann''\<rparr>,
                 \<lparr>ID = None, Login = ''bob'', Name = ''Bob''\<rparr>]"
  have results: "spec_results ?client ''http://localhost'' ''secret'' actionRegister
      (List.product [5, 6] ?users) 0 = [None, Some SendingRequest, None, None]"
    by code_simp
  have lines: "List.map_filter spec_failure (zip (List.product [5, 6] ?users)
        [None, Some SendingRequest, None, None]) = [(5, ''login=bob'', SendingRequest)] \<and>
      List.map_filter (spec_success actionRegister) (zip (List.product [5, 6] ?users)
        [None, Some SendingRequest, None, None])
        = [(''Registered'', ''login=1 (id=1)'', 5), (''Registered'', ''login=1 (id=1)'', 6),
           (''Registered'', ''login=bob'', 6)]"
    by code_simp
  show ?thesis
    using driver_loop_attempts_all
      [of ?client "''http://localhost''" "''secret''" actionRegister "[5, 6]" ?users 0]
    unfolding results using lines by simp
qed

section \<open>Properties of the configuration file\<close>

lemma foldName_token: "foldName ''token'' = ''TOKEN''"
  by code_simp

lemma findField_token: "findField [''token''] k \<noteq> None \<longleftrightarrow> foldName k = ''TOKEN''"
  using foldName_token by (auto simp: findField_def simp del: foldName.simps)

lemma config_member_saved:
  "fst (config_member (Some e, cfg) kv) = Some e"
  by (simp add: config_member_def Let_def firstError_def split: option.splits)

lemma foldl_config_member_saved:
  "fst (foldl config_member (Some e, cfg) kvs) = Some e"
proof (induction kvs arbitrary: cfg)
  case Nil
  then show ?case by simp
next
  case (Cons kv kvs)
  obtain cfg' where "config_member (Some e, cfg) kv = (Some e, cfg')"
    using config_member_saved [of e cfg kv] by (cases "config_member (Some e, cfg) kv") simp
  then show ?case using Cons.IH by simp
qed

lemma config_member_fits:
  "spec_tokenMember kv \<Longrightarrow>
   config_member (None, cfg) kv =
     (None, cfg\<lparr>Token := (case snd kv of JString s \<Rightarrow> s | _ \<Rightarrow> Token cfg)\<rparr>)"
  using findField_token [of "fst kv"]
  by (cases "snd kv")
     (auto simp: spec_tokenMember_def config_member_def Let_def firstError_def storeString_def
        split: option.splits)

lemma config_member_unfit:
  "\<not> spec_tokenMember kv \<Longrightarrow> \<exists>e cfg'. config_member (None, cfg) kv = (Some e, cfg')"
  using findField_token [of "fst kv"]
  by (cases "snd kv")
     (auto simp: spec_tokenMember_def config_member_def Let_def firstError_def storeString_def
        split: option.splits)

lemma foldl_config_member:
  "fst (foldl config_member (None, cfg) kvs) = None \<longleftrightarrow> list_all spec_tokenMember kvs"
  "list_all spec_tokenMember kvs \<Longrightarrow>
   Token (snd (foldl config_member (None, cfg) kvs)) =
     foldl (\<lambda>t kv. case snd kv of JString s \<Rightarrow> s | _ \<Rightarrow> t) (Token cfg) kvs"
proof (induction kvs arbitrary: cfg)
  case Nil
  { case 1 show ?case by simp }
  { case 2 show ?case by simp }
next
  case (Cons kv kvs)
  { case 1
    show ?case
    proof (cases "spec_tokenMember kv")
      case True
      then show ?thesis using Cons.IH(1) by (simp add: config_member_fits)
    next
      case False
      from config_member_unfit [OF this, of cfg] obtain e cfg'
        where "config_member (None, cfg) kv = (Some e, cfg')" by blast
      with False show ?thesis by (simp add: foldl_config_member_saved)
    qed }
  { case 2
    then have kv: "spec_tokenMember kv" and rest: "list_all spec_tokenMember kvs" by simp_all
    show ?case using Cons.IH(2) [OF rest] by (simp add: config_member_fits [OF kv]) }
qed

lemma decode_config_fits:
  "fst (decode_config v) = None \<longleftrightarrow> spec_fitsConfig v"
  "spec_fitsConfig v \<Longrightarrow> Token (snd (decode_config v)) = spec_token v"
  by (cases v; simp add: decode_config_def spec_fitsConfig_def spec_token_def config_zero_def
        foldl_config_member)+

lemma readValue_blank: "skipSpace s = [] \<Longrightarrow> readValue s = ScanErr"
  by (simp add: readValue_def scanFrom.simps)

lemma Decode_empty_struct_EOF: "Decode_empty_struct s = Some EOF \<longleftrightarrow> skipSpace s = []"
  by (cases "readValue s"; cases "case readValue s of ScanOk v r \<Rightarrow> v")
    (auto simp: Decode_empty_struct_def decode_empty_struct_def split: scan.splits json.splits list.splits)


lemma readValue_ok_not_blank: "readValue s = ScanOk v rest \<Longrightarrow> skipSpace s \<noteq> []"
  using readValue_blank [of s] by auto

lemma loadConfig_ok_iff:
  assumes "path \<noteq> []"
  shows "loadConfig fs path = Inr cfg \<longleftrightarrow>
     (\<exists>content v rest. fs path = Some content \<and> readValue content = ScanOk v rest \<and>
        skipSpace rest = [] \<and> spec_fitsConfig v \<and> cfg = \<lparr>Token = spec_token v\<rparr>)"
proof (cases "fs path")
  case None
  with assms show ?thesis by (simp add: loadConfig_def)
next
  case (Some content)
  show ?thesis
  proof (cases "readValue content")
    case ScanErr
    with Some assms show ?thesis
      by (simp add: loadConfig_def Decode_config_def)
  next
    case (ScanOk v rest)
    have nb: "skipSpace content \<noteq> []" by (rule readValue_ok_not_blank [OF ScanOk])
    show ?thesis
    proof (cases "spec_fitsConfig v")
      case False
      then obtain e where "fst (decode_config v) = Some e"
        using decode_config_fits(1) [of v] by (cases "fst (decode_config v)") auto
      with Some ScanOk nb assms False show ?thesis
        by (simp add: loadConfig_def Decode_config_def)
    next
      case True
      then have ok: "fst (decode_config v) = None" using decode_config_fits(1) [of v] by simp
      have tok: "snd (decode_config v) = \<lparr>Token = spec_token v\<rparr>"
        using decode_config_fits(2) [OF True] by (cases "snd (decode_config v)") simp
      have dec: "Decode_config content = Inr (\<lparr>Token = spec_token v\<rparr>, rest)"
        using ScanOk nb ok tok by (simp add: Decode_config_def)
      show ?thesis
      proof (cases "skipSpace rest = []")
        case blank: True
        then have "Decode_empty_struct rest = Some EOF"
          using Decode_empty_struct_EOF [of rest] by simp
        with Some ScanOk assms True blank dec show ?thesis
          by (auto simp: loadConfig_def)
      next
        case nonblank: False
        then have ne: "Decode_empty_struct rest \<noteq> Some EOF"
          using Decode_empty_struct_EOF [of rest] by simp
        then have "\<exists>e. loadConfig fs path = Inl e"
          using Some assms dec by (auto simp: loadConfig_def split: option.splits)
        with Some ScanOk nonblank show ?thesis by auto
      qed
    qed
  qed
qed

lemma main_before_network:
  assumes "loadConfig fs (TrimSpace (configArg fl)) = Inl e"
  shows "main client fs fl w =
     (if usersArg fl = [] then Fatal UsersFlagRequired w
      else if contestsArg fl = [] then Fatal ContestsFlagRequired w
      else case parseAction (actionArg fl) of
             None \<Rightarrow> Fatal (InvalidAction (actionArg fl)) w
           | Some action \<Rightarrow>
               (case parseUsers (usersArg fl) of
                  Inl err \<Rightarrow> Fatal (FailedToParseUsers err) w
                | Inr users \<Rightarrow>
                    (case parseContestIDs (contestsArg fl) of
                       Inl err \<Rightarrow> Fatal (FailedToParseContests err) w
                     | Inr contests \<Rightarrow> Fatal (FailedToLoadConfig e) w)))"
  using assms by (simp add: main_def split: option.splits sum.splits)

lemma main_loop_starts_fresh:
  assumes "main client fs fl w = Finished n st"
  shows "\<exists>cfg action users contests.
     loadConfig fs (TrimSpace (configArg fl)) = Inr cfg \<and>
     parseAction (actionArg fl) = Some action \<and>
     parseUsers (usersArg fl) = Inr users \<and>
     parseContestIDs (contestsArg fl) = Inr contests \<and>
     st = contests_loop client (TrimSuffix_slash (baseURLArg fl))
            (if TrimSpace (tokenArg fl) = [] then TrimSpace (Token cfg)
             else TrimSpace (tokenArg fl))
            action contests users \<lparr>failures = [], logged = [], net = w\<rparr> \<and>
     n = exit_status st"
proof (cases "loadConfig fs (TrimSpace (configArg fl))")
  case (Inl e)
  from main_before_network [OF Inl, of client w] assms show ?thesis
    by (simp split: if_splits option.splits sum.splits)
next
  case (Inr cfg)
  with assms show ?thesis
    by (auto simp: main_def Let_def split: if_splits option.splits sum.splits)
qed

text \<open>
  C10, as the code has it. With an empty path \<open>loadConfig\<close> returns the empty
  configuration. With any other path it succeeds exactly when the file opens, its content
  starts with one JSON value that fits the configuration (\<open>null\<close>, or an object whose keys
  all select \<open>token\<close> and whose values are strings or \<open>null\<close>) and nothing but white
  space follows that value; the configuration it returns holds the token of that value.
  In every other case it fails, and so it does for a value of the wrong shape, such as a
  token that is a number. No request is made before: when \<open>loadConfig\<close> fails, \<open>main\<close>
  ends with a fatal error that does not depend on the network and leaves it as it was;
  and when \<open>main\<close> gets to its loop, \<open>loadConfig\<close> has succeeded and the loop starts
  on the network as it was at the start.
\<close>

theorem loadConfig_succeeds_iff:
  "loadConfig fs [] = Inr config_zero \<and>
   (path \<noteq> [] \<longrightarrow>
      (loadConfig fs path = Inr cfg \<longleftrightarrow>
         (\<exists>content v rest. fs path = Some content \<and> readValue content = ScanOk v rest \<and>
            skipSpace rest = [] \<and> spec_fitsConfig v \<and> cfg = \<lparr>Token = spec_token v\<rparr>))) \<and>
   (loadConfig fs (TrimSpace (configArg fl)) = Inl e \<longrightarrow>
      (\<exists>f. \<forall>client. main client fs fl w = Fatal f w)) \<and>
   (main client fs fl w = Finished n st \<longrightarrow>
      (\<exists>loaded action users contests.
         loadConfig fs (TrimSpace (configArg fl)) = Inr loaded \<and>
         parseAction (actionArg fl) = Some action \<and>
         parseUsers (usersArg fl) = Inr users \<and>
         parseContestIDs (contestsArg fl) = Inr contests \<and>
         st = contests_loop client (TrimSuffix_slash (baseURLArg fl))
                (if TrimSpace (tokenArg fl) = [] then TrimSpace (Token loaded)
                 else TrimSpace (tokenArg fl))
                action contests users \<lparr>failures = [], logged = [], net = w\<rparr> \<and>
         n = exit_status st))"
proof -
  have 1: "loadConfig fs [] = Inr config_zero" by (simp add: loadConfig_def)
  have 2: "path \<noteq> [] \<longrightarrow>
      (loadConfig fs path = Inr cfg \<longleftrightarrow>
         (\<exists>content v rest. fs path = Some content \<and> readValue content = ScanOk v rest \<and>
            skipSpace rest = [] \<and> spec_fitsConfig v \<and> cfg = \<lparr>Token = spec_token v\<rparr>))"
    using loadConfig_ok_iff by blast
  have 3: "loadConfig fs (TrimSpace (configArg fl)) = Inl e \<longrightarrow>
      (\<exists>f. \<forall>client. main client fs fl w = Fatal f w)"
  proof
    assume a: "loadConfig fs (TrimSpace (configArg fl)) = Inl e"
    show "\<exists>f. \<forall>client. main client fs fl w = Fatal f w"
      unfolding main_before_network [OF a]
      by (simp split: option.splits sum.splits)
  qed
  have 4: "main client fs fl w = Finished n st \<longrightarrow>
      (\<exists>loaded action users contests.
         loadConfig fs (TrimSpace (configArg fl)) = Inr loaded \<and>
         parseAction (actionArg fl) = Some action \<and>
         parseUsers (usersArg fl) = Inr users \<and>
         parseContestIDs (contestsArg fl) = Inr contests \<and>
         st = contests_loop client (TrimSuffix_slash (baseURLArg fl))
                (if TrimSpace (tokenArg fl) = [] then TrimSpace (Token loaded)
                 else TrimSpace (tokenArg fl))
                action contests users \<lparr>failures = [], logged = [], net = w\<rparr> \<and>
         n = exit_status st)"
    by (rule impI) (erule main_loop_starts_fresh)
  from 1 2 3 4 show ?thesis by (intro conjI)
qed

theorem loadConfig_succeeds_iff_witness:
  "loadConfig [''cfg.json'' \<mapsto> '' {\"Token\": \"secret\"} ''] ''cfg.json''
     = Inr \<lparr>Token = ''secret''\<rparr> \<and>
   (\<nexists>cfg. loadConfig [''cfg.json'' \<mapsto> ''{\"token\":\"a\"} {}''] ''cfg.json'' = Inr cfg) \<and>
   (\<exists>f. \<forall>client.
      main client Map.empty
        \<lparr>usersArg = ''1:Ann'', contestsArg = ''5'', actionArg = ''register'',
         baseURLArg = ''http://localhost'', tokenArg = ''secret'', configArg = ''absent.json''\<rparr>
        (0::nat) = Fatal f 0) \<and>
   (\<exists>loaded. loadConfig [''cfg.json'' \<mapsto> ''{\"token\":\"secret\"}''] (TrimSpace '' cfg.json'')
      = Inr loaded)"
proof -
  have scan1: "readValue '' {\"Token\": \"secret\"} ''
      = ScanOk (JObject [(''Token'', JString ''secret'')]) '' ''"
    by code_simp
  have fits1: "spec_fitsConfig (JObject [(''Token'', JString ''secret'')])"
    by code_simp
  have tok1: "spec_token (JObject [(''Token'', JString ''secret'')]) = ''secret''"
    by code_simp
  have blank1: "skipSpace '' '' = []" by code_simp
  have 1: "loadConfig [''cfg.json'' \<mapsto> '' {\"Token\": \"secret\"} ''] ''cfg.json''
     = Inr \<lparr>Token = ''secret''\<rparr>"
    using loadConfig_succeeds_iff
      [of "[''cfg.json'' \<mapsto> '' {\"Token\": \"secret\"} '']" "''cfg.json''"
          "\<lparr>Token = ''secret''\<rparr>", THEN conjunct2, THEN conjunct1]
      scan1 fits1 tok1 blank1
    by auto
  have scan2: "readValue ''{\"token\":\"a\"} {}'' = ScanOk (JObject [(''token'', JString ''a'')]) '' {}''"
    by code_simp
  have blank2: "skipSpace '' {}'' = ''{}''" by code_simp
  have 2: "\<nexists>cfg. loadConfig [''cfg.json'' \<mapsto> ''{\"token\":\"a\"} {}''] ''cfg.json'' = Inr cfg"
  proof
    assume "\<exists>cfg. loadConfig [''cfg.json'' \<mapsto> ''{\"token\":\"a\"} {}''] ''cfg.json'' = Inr cfg"
    then obtain cfg
      where "loadConfig [''cfg.json'' \<mapsto> ''{\"token\":\"a\"} {}''] ''cfg.json'' = Inr cfg" ..
    with loadConfig_succeeds_iff
      [of "[''cfg.json'' \<mapsto> ''{\"token\":\"a\"} {}'']" "''cfg.json''" cfg,
       THEN conjunct2, THEN conjunct1]
    show False using scan2 blank2 by auto
  qed
  have absent: "loadConfig Map.empty (TrimSpace ''absent.json'') = Inl (OpeningConfigFile ''absent.json'')"
    by code_simp
  have 3: "\<exists>f. \<forall>client.
      main client Map.empty
        \<lparr>usersArg = ''1:Ann'', contestsArg = ''5'', actionArg = ''register'',
         baseURLArg = ''http://localhost'', tokenArg = ''secret'', configArg = ''absent.json''\<rparr>
        (0::nat) = Fatal f 0"
    using loadConfig_succeeds_iff
      [of Map.empty "[]" config_zero
          "\<lparr>usersArg = ''1:Ann'', contestsArg = ''5'', actionArg = ''register'',
            baseURLArg = ''http://localhost'', tokenArg = ''secret'',
            configArg = ''absent.json''\<rparr>"
          "OpeningConfigFile ''absent.json''" "0::nat",
       THEN conjunct2, THEN conjunct2, THEN conjunct1]
      absent
    by simp
  have run: "main (\<lambda>w req. (Response \<lparr>StatusCode = 200, Status = ''200 OK'',
                 ContentTypeHeader = [], Body = ''{\"ok\":true,\"result\":true}''\<rparr>, Suc w))
      [''cfg.json'' \<mapsto> ''{\"token\":\"secret\"}'']
      \<lparr>usersArg = ''1:Ann'', contestsArg = ''5'', actionArg = ''register'',
       baseURLArg = ''http://localhost/'', tokenArg = [], configArg = '' cfg.json''\<rparr> (0::nat)
    = Finished 0 \<lparr>failures = [], logged = [(''Registered'', ''login=1 (id=1)'', 5)],
                    net = 1\<rparr>"
    by code_simp
  have 4: "\<exists>loaded. loadConfig [''cfg.json'' \<mapsto> ''{\"token\":\"secret\"}'']
      (TrimSpace '' cfg.json'') = Inr loaded"
    using loadConfig_succeeds_iff
      [of "[''cfg.json'' \<mapsto> ''{\"token\":\"secret\"}'']" "[]" config_zero
          "\<lparr>usersArg = ''1:Ann'', contestsArg = ''5'', actionArg = ''register'',
            baseURLArg = ''http://localhost/'', tokenArg = [], configArg = '' cfg.json''\<rparr>"
          "ConfigFileEmpty" "0::nat"
          "\<lambda>w req. (Response \<lparr>StatusCode = 200, Status = ''200 OK'',
                 ContentTypeHeader = [], Body = ''{\"ok\":true,\"result\":true}''\<rparr>, Suc w)"
          0 "\<lparr>failures = [], logged = [(''Registered'', ''login=1 (id=1)'', 5)], net = 1\<rparr>",
       THEN conjunct2, THEN conjunct2, THEN conjunct2]
      run
    by auto
  from 1 2 3 4 show ?thesis by blast
qed

theorem loadConfig_rejects_number_token:
  "[''cfg.json'' \<mapsto> ''{\"token\": 5}''] ''cfg.json'' = Some ''{\"token\": 5}'' \<and>
   ''{\"token\": 5}'' \<noteq> [] \<and>
   readValue ''{\"token\": 5}'' = ScanOk (JObject [(''token'', JNumber ''5'')]) [] \<and>
   loadConfig [''cfg.json'' \<mapsto> ''{\"token\": 5}''] ''cfg.json''
     = Inl (DecodingConfig ''cfg.json''
              (UnmarshalTypeError ''number'' ''config'' ''token'' ''string''))"
  by code_simp

section \<open>Where the response handling departs from the specification\<close>

text \<open>
  C1 fails on the code. For every response with a 2xx status whose content type is given
  and is not a JSON media type, \<open>changeRegistration\<close> returns the content-type error with
  a preview of the body, whatever the body holds: it never looks for JSON inside the body.
  So it does for the specification's own example, a \<open>text/html\<close> response whose body is a
  \<open>pre\<close> element around a JSON reply.
\<close>

theorem html_response_rejected:
  "200 \<le> StatusCode resp \<Longrightarrow> StatusCode resp < 300 \<Longrightarrow>
   ContentTypeHeader resp \<noteq> [] \<Longrightarrow> \<not> isJSONContentType (ContentTypeHeader resp) \<Longrightarrow>
   changeRegistration_response resp =
     Some (UnexpectedContentType (ContentTypeHeader resp) (Status resp)
             (if length (Body resp) > 200 then take 200 (Body resp) @ ''...'' else Body resp))"
  by (simp add: changeRegistration_response_def maxPreview_def Let_def)

theorem html_response_rejected_witness:
  "changeRegistration_response
     \<lparr>StatusCode = 200, Status = ''200 OK'', ContentTypeHeader = ''text/html'',
      Body = ''<pre>{\"ok\":true,\"result\":true,\"action\":\"upsert\"}</pre>''\<rparr> =
   Some (UnexpectedContentType ''text/html'' ''200 OK''
           ''<pre>{\"ok\":true,\"result\":true,\"action\":\"upsert\"}</pre>'')"
proof -
  have html: "\<not> isJSONContentType ''text/html''" by code_simp
  show ?thesis
    using html_response_rejected
      [of "\<lparr>StatusCode = 200, Status = ''200 OK'', ContentTypeHeader = ''text/html'',
            Body = ''<pre>{\"ok\":true,\"result\":true,\"action\":\"upsert\"}</pre>''\<rparr>"]
      html
    by simp
qed

text \<open>
  C2 fails on the code. The field \<open>Result\<close> of the reply is a \<open>bool\<close>, so a reply whose
  \<open>result\<close> is a string does not decode: \<open>changeRegistration\<close> returns the decoding
  error, whose message names the kind of the value, the field and its type, and does not
  hold the string.
\<close>

theorem string_result_not_reported:
  "changeRegistration_response
     \<lparr>StatusCode = 200, Status = ''200 OK'', ContentTypeHeader = ''application/json'',
      Body = ''{\"ok\":false,\"result\":\"contest is closed\"}''\<rparr> =
   Some (DecodingResponse
           (UnmarshalTypeError ''string'' ''changeRegistrationReply'' ''result'' ''bool'')) \<and>
   Error_text (DecodingResponse
           (UnmarshalTypeError ''string'' ''changeRegistrationReply'' ''result'' ''bool'')) =
   Some ''decoding response: json: cannot unmarshal string into Go struct field changeRegistrationReply.result of type bool'' \<and>
   \<not> Contains ''decoding response: json: cannot unmarshal string into Go struct field changeRegistrationReply.result of type bool''
       ''contest is closed''"
  by code_simp

text \<open>
  C3 fails on the code. For every response whose status is not 2xx, \<open>changeRegistration\<close>
  returns an error made of the status line and the whole body: the body is not cut at 200
  characters and no ellipsis is added, as it is for the preview of the content-type error.
\<close>

theorem status_error_keeps_whole_body:
  "StatusCode resp < 200 \<or> 300 \<le> StatusCode resp \<Longrightarrow>
   changeRegistration_response resp = Some (UnexpectedStatus (Status resp) (Body resp)) \<and>
   Error_text (UnexpectedStatus (Status resp) (Body resp)) =
     Some (''unexpected status '' @ Status resp @ '': '' @ Body resp)"
  by (auto simp: changeRegistration_response_def Error_text_def)

theorem status_error_keeps_whole_body_witness:
  "changeRegistration_response
     \<lparr>StatusCode = 500, Status = ''500 Internal Server Error'', ContentTypeHeader = ''text/html'',
      Body = replicate 201 (CHR ''x'')\<rparr> =
   Some (UnexpectedStatus ''500 Internal Server Error'' (replicate 201 (CHR ''x''))) \<and>
   length (replicate 201 (CHR ''x'')) = 201"
  using status_error_keeps_whole_body
    [of "\<lparr>StatusCode = 500, Status = ''500 Internal Server Error'',
          ContentTypeHeader = ''text/html'', Body = replicate 201 (CHR ''x'')\<rparr>"]
  by simp

end
